theory Spec2Isabelle
  imports Complex_Main "HOL-Library.Word"
begin

section \<open>Machine types of Resampler.cpp\<close>

text \<open>
  \<open>unsigned\<close> is a 32-bit word: \<open>*\<close>, \<open>+\<close> and \<open>-\<close> wrap, \<open>div\<close> and \<open>mod\<close> are the
  unsigned operations. The path table is a \<open>vector<pair<int, int>>\<close>: an unsigned value
  stored there is read back as two's complement (\<open>sint\<close>). Vector sizes (\<open>size_t\<close>) are
  list lengths.
\<close>

type_synonym unsigned = "32 word"

text \<open>
  \<open>InvalidArgument\<close> is the \<open>invalid_argument\<close> exception thrown by \<open>COPY_INPUT\<close>. The other
  two are undefined behaviour of the C++ source: an integer division by zero and a read
  outside a vector.
\<close>

datatype error = InvalidArgument | DivisionByZero | OutOfBounds

text \<open>
  Double precision arithmetic is a parameter: the operations on \<open>double\<close> that the source
  uses, over a type \<open>'d\<close> that stands for \<open>double\<close>. Everything proved for all values of
  this record holds for IEEE binary64 and the C library.
\<close>

record 'd dbl =
  d_lit :: "real \<Rightarrow> 'd"
  d_of_nat :: "nat \<Rightarrow> 'd"
  m_pi :: "'d"
  d_add :: "'d \<Rightarrow> 'd \<Rightarrow> 'd"
  d_sub :: "'d \<Rightarrow> 'd \<Rightarrow> 'd"
  d_mul :: "'d \<Rightarrow> 'd \<Rightarrow> 'd"
  d_div :: "'d \<Rightarrow> 'd \<Rightarrow> 'd"
  d_less :: "'d \<Rightarrow> 'd \<Rightarrow> bool"
  d_eq :: "'d \<Rightarrow> 'd \<Rightarrow> bool"
  d_sin :: "'d \<Rightarrow> 'd"
  d_cos :: "'d \<Rightarrow> 'd"

text \<open>
  The element type \<open>T\<close> of a template instance: \<open>is_integral<T>::value\<close>,
  \<open>numeric_limits<T>::min()\<close> and \<open>max()\<close>, the conversion \<open>(double) x\<close>, the narrowing
  assignment of a \<open>double\<close> to a \<open>T\<close>, and the value-initialised \<open>T()\<close>.
\<close>

record ('a, 'd) elem =
  is_integral :: bool
  numeric_limits_min :: "'a"
  numeric_limits_max :: "'a"
  to_double :: "'a \<Rightarrow> 'd"
  of_double :: "'d \<Rightarrow> 'a"
  t_zero :: "'a"

text \<open>
  The members of \<open>Resampler\<close> and of its two subclasses. \<open>'s\<close> is the sample type:
  \<open>T\<close> for \<open>RealResampler<T>\<close>, a pair (real part, imaginary part) for
  \<open>ComplexResampler<T>\<close>.
\<close>

record ('s, 'd) resampler =
  partitions :: "'d list list"
  paths :: "(int \<times> int) list"
  rs_P :: unsigned
  rs_Q :: unsigned
  history :: "'s list"

section \<open>Resampler::resize\<close>

text \<open>
  One entry of the loop of \<open>resize\<close>: \<open>pair<unsigned, unsigned>((Q * i) / P, (Q * i) % P)\<close>
  with the \<open>unsigned\<close> counter \<open>i\<close>, converted to \<open>pair<int, int>\<close>.
\<close>

definition path_entry :: "unsigned \<Rightarrow> unsigned \<Rightarrow> nat \<Rightarrow> int \<times> int" where
  "path_entry p q i = (sint ((q * of_nat i) div p), sint ((q * of_nat i) mod p))"

definition resize :: "('s, 'd) resampler \<Rightarrow> nat \<Rightarrow> error + ('s, 'd) resampler" where
  "resize e n =
     (if 0 < n \<and> rs_P e = 0 then Inl DivisionByZero
      else Inr (e\<lparr>paths := map (path_entry (rs_P e) (rs_Q e)) [0..<n]\<rparr>))"

section \<open>Resampler::init\<close>

definition sinc :: "'d dbl \<Rightarrow> 'd \<Rightarrow> 'd" where
  "sinc ops x =
     (if d_eq ops x (d_lit ops 0) then d_lit ops 1
      else d_div ops (d_sin ops (d_mul ops (m_pi ops) x)) (d_mul ops (m_pi ops) x))"

text \<open>The argument \<open>k * M_PI * i / proto.size()\<close> of a cosine of the window.\<close>

definition window_arg :: "'d dbl \<Rightarrow> real \<Rightarrow> nat \<Rightarrow> 'd \<Rightarrow> 'd" where
  "window_arg ops k n i =
     d_div ops (d_mul ops (d_mul ops (d_lit ops k) (m_pi ops)) i) (d_of_nat ops n)"

definition window :: "'d dbl \<Rightarrow> nat \<Rightarrow> 'd \<Rightarrow> 'd" where
  "window ops n i =
     d_sub ops
       (d_add ops
         (d_sub ops (d_lit ops 0.35875)
           (d_mul ops (d_lit ops 0.48829) (d_cos ops (window_arg ops 2 n i))))
         (d_mul ops (d_lit ops 0.14128) (d_cos ops (window_arg ops 4 n i))))
       (d_mul ops (d_lit ops 0.01168) (d_cos ops (window_arg ops 6 n i)))"

text \<open>The value stored in \<open>p\<close> by one round of the first loop of \<open>init\<close>.\<close>

definition proto_sample :: "'d dbl \<Rightarrow> nat \<Rightarrow> 'd \<Rightarrow> 'd \<Rightarrow> 'd" where
  "proto_sample ops n cutoff i =
     d_mul ops
       (sinc ops (d_div ops (d_sub ops i (d_div ops (d_of_nat ops n) (d_lit ops 2))) cutoff))
       (window ops n i)"

text \<open>
  The first loop of \<open>init\<close> over the \<open>k\<close> remaining elements of \<open>proto\<close>, with the
  \<open>double\<close> counter \<open>i\<close> and the running \<open>sum\<close> (here \<open>s\<close>): the elements written, and the final sum.
\<close>

fun proto_loop :: "'d dbl \<Rightarrow> nat \<Rightarrow> 'd \<Rightarrow> nat \<Rightarrow> 'd \<Rightarrow> 'd \<Rightarrow> 'd list \<times> 'd" where
  "proto_loop ops n cutoff 0 i s = ([], s)"
| "proto_loop ops n cutoff (Suc k) i s =
     (let p = proto_sample ops n cutoff i;
          r = proto_loop ops n cutoff k (d_add ops i (d_lit ops 1)) (d_add ops s p)
      in (p # fst r, snd r))"

text \<open>The index \<open>j * P + p\<close> into \<open>proto\<close>, computed in \<open>unsigned\<close>.\<close>

definition flat_index :: "unsigned \<Rightarrow> nat \<Rightarrow> nat \<Rightarrow> nat" where
  "flat_index p j k = unat (of_nat j * p + of_nat k)"

definition init :: "'d dbl \<Rightarrow> unsigned \<Rightarrow> unsigned \<Rightarrow> 'd \<Rightarrow> 'd list list" where
  "init ops p taps cutoff =
     (let n = unat p * unat taps;
          r = proto_loop ops n cutoff n (d_lit ops 0) (d_lit ops 0);
          proto = fst r;
          beta = d_div ops (d_of_nat ops (unat p)) (snd r)
      in map (\<lambda>k. rev (map (\<lambda>j. d_mul ops (proto ! flat_index p j k) beta) [0..<unat taps]))
           [0..<unat p])"

section \<open>Constructors\<close>

text \<open>
  \<open>Resampler::Resampler\<close> followed by the member initialiser \<open>history(taps-1)\<close> of the
  subclass; \<open>taps-1\<close> is an \<open>unsigned\<close> subtraction. \<open>DEFAULT_PATH_LEN\<close> is 128.
\<close>

definition DEFAULT_PATH_LEN :: nat where
  "DEFAULT_PATH_LEN = 128"

definition construct ::
  "'d dbl \<Rightarrow> 's \<Rightarrow> unsigned \<Rightarrow> unsigned \<Rightarrow> unsigned \<Rightarrow> error + ('s, 'd) resampler" where
  "construct ops zero p q taps =
     resize
       \<lparr>partitions = init ops p taps (d_of_nat ops (unat (if q < p then p else q))),
        paths = [], rs_P = p, rs_Q = q,
        history = replicate (unat (taps - 1)) zero\<rparr>
       DEFAULT_PATH_LEN"

definition RealResampler ::
  "'d dbl \<Rightarrow> ('a, 'd) elem \<Rightarrow> unsigned \<Rightarrow> unsigned \<Rightarrow> unsigned \<Rightarrow> error + ('a, 'd) resampler" where
  "RealResampler ops el p q taps = construct ops (t_zero el) p q taps"

definition ComplexResampler ::
  "'d dbl \<Rightarrow> ('a, 'd) elem \<Rightarrow> unsigned \<Rightarrow> unsigned \<Rightarrow> unsigned
     \<Rightarrow> error + ('a \<times> 'a, 'd) resampler" where
  "ComplexResampler ops el p q taps = construct ops (t_zero el, t_zero el) p q taps"

section \<open>resample\<close>

text \<open>\<open>std::max(a, b)\<close> is \<open>(a < b) ? b : a\<close> and \<open>std::min(a, b)\<close> is \<open>(b < a) ? b : a\<close>.\<close>

definition std_max :: "'d dbl \<Rightarrow> 'd \<Rightarrow> 'd \<Rightarrow> 'd" where
  "std_max ops a b = (if d_less ops a b then b else a)"

definition std_min :: "'d dbl \<Rightarrow> 'd \<Rightarrow> 'd \<Rightarrow> 'd" where
  "std_min ops a b = (if d_less ops b a then b else a)"

text \<open>The block under \<open>SATURATE\<close>, for one component of the accumulator.\<close>

definition saturate :: "'d dbl \<Rightarrow> ('a, 'd) elem \<Rightarrow> 'd \<Rightarrow> 'd" where
  "saturate ops el a =
     (if is_integral el
      then std_min ops (to_double el (numeric_limits_max el))
             (std_max ops (to_double el (numeric_limits_min el)) a)
      else a)"

text \<open>
  The inner loops: the accumulator after the coefficients \<open>h\<close> have been multiplied with
  the samples \<open>w\<close> read from \<open>xi\<close> on.
\<close>

definition real_accum :: "'d dbl \<Rightarrow> ('a, 'd) elem \<Rightarrow> 'd list \<Rightarrow> 'a list \<Rightarrow> 'd" where
  "real_accum ops el h w =
     foldl (\<lambda>accum (c, x). d_add ops accum (d_mul ops c (to_double el x)))
       (d_lit ops 0) (zip h w)"

definition complex_accum ::
  "'d dbl \<Rightarrow> ('a, 'd) elem \<Rightarrow> 'd list \<Rightarrow> ('a \<times> 'a) list \<Rightarrow> 'd \<times> 'd" where
  "complex_accum ops el h w =
     foldl (\<lambda>accum (c, x).
         (d_add ops (fst accum) (d_mul ops c (to_double el (fst x))),
          d_add ops (snd accum) (d_mul ops c (to_double el (snd x)))))
       (d_lit ops 0, d_lit ops 0) (zip h w)"

text \<open>The value assigned to \<open>*oi\<close>, from the partition \<open>h\<close> and the samples at \<open>xi\<close>.\<close>

definition real_sample :: "'d dbl \<Rightarrow> ('a, 'd) elem \<Rightarrow> 'd list \<Rightarrow> 'a list \<Rightarrow> 'a" where
  "real_sample ops el h w = of_double el (saturate ops el (real_accum ops el h w))"

definition complex_sample ::
  "'d dbl \<Rightarrow> ('a, 'd) elem \<Rightarrow> 'd list \<Rightarrow> ('a \<times> 'a) list \<Rightarrow> 'a \<times> 'a" where
  "complex_sample ops el h w =
     (let accum = complex_accum ops el h w
      in (of_double el (saturate ops el (fst accum)),
          of_double el (saturate ops el (snd accum))))"

text \<open>
  One round of the outer loop, for the path entry \<open>pe\<close>: \<open>partitions[pi->second]\<close> and the
  \<open>h.size()\<close> samples from \<open>x.begin() + pi->first\<close> on must exist.
\<close>

definition output_sample ::
  "('d list \<Rightarrow> 's list \<Rightarrow> 's) \<Rightarrow> 'd list list \<Rightarrow> 's list \<Rightarrow> int \<times> int \<Rightarrow> error + 's" where
  "output_sample kern parts x pe =
     (if snd pe < 0 \<or> int (length parts) \<le> snd pe then Inl OutOfBounds
      else let h = parts ! nat (snd pe)
           in if fst pe < 0 \<or> int (length x) < fst pe + int (length h) then Inl OutOfBounds
              else Inr (kern h (take (length h) (drop (nat (fst pe)) x))))"

text \<open>The outer loop over the output, \<open>pi\<close> walking along the path table.\<close>

fun output_loop :: "('p \<Rightarrow> error + 's) \<Rightarrow> 'p list \<Rightarrow> error + 's list" where
  "output_loop f [] = Inr []"
| "output_loop f (pe # pes) =
     (case f pe of
        Inl err \<Rightarrow> Inl err
      | Inr y \<Rightarrow> (case output_loop f pes of Inl err \<Rightarrow> Inl err | Inr ys \<Rightarrow> Inr (y # ys)))"

text \<open>
  The body shared by the two \<open>resample\<close> functions: the macro \<open>COPY_INPUT\<close> and the outer
  loop, with the inner loop, the saturation and the assignment as \<open>kern\<close>. The result is
  the outcome (an error, or the new contents of \<open>output\<close>) and the members after the call.
  The operands of \<open>||\<close> are evaluated from left to right.
\<close>

definition resample_body ::
  "('d list \<Rightarrow> 's list \<Rightarrow> 's) \<Rightarrow> ('s, 'd) resampler \<Rightarrow> 's list \<Rightarrow> 's list
     \<Rightarrow> (error + 's list) \<times> ('s, 'd) resampler" where
  "resample_body kern e input output =
     (if rs_Q e = 0 then (Inl DivisionByZero, e)
      else if length input mod unat (rs_Q e) \<noteq> 0 then (Inl InvalidArgument, e)
      else if rs_P e = 0 then (Inl DivisionByZero, e)
      else if length output mod unat (rs_P e) \<noteq> 0
              \<or> length input div unat (rs_Q e) \<noteq> length output div unat (rs_P e)
              \<or> length input < length (history e)
           then (Inl InvalidArgument, e)
      else case (if length (paths e) < length output then resize e (length output) else Inr e) of
             Inl err \<Rightarrow> (Inl err, e)
           | Inr e1 \<Rightarrow>
               let x = history e1 @ input;
                   e2 = e1\<lparr>history := drop (length input - length (history e1)) input\<rparr>
               in (output_loop (output_sample kern (partitions e2) x)
                     (take (length output) (paths e2)), e2))"

definition RealResampler_resample ::
  "'d dbl \<Rightarrow> ('a, 'd) elem \<Rightarrow> ('a, 'd) resampler \<Rightarrow> 'a list \<Rightarrow> 'a list
     \<Rightarrow> (error + 'a list) \<times> ('a, 'd) resampler" where
  "RealResampler_resample ops el = resample_body (real_sample ops el)"

definition ComplexResampler_resample ::
  "'d dbl \<Rightarrow> ('a, 'd) elem \<Rightarrow> ('a \<times> 'a, 'd) resampler \<Rightarrow> ('a \<times> 'a) list \<Rightarrow> ('a \<times> 'a) list
     \<Rightarrow> (error + ('a \<times> 'a) list) \<times> ('a \<times> 'a, 'd) resampler" where
  "ComplexResampler_resample ops el = resample_body (complex_sample ops el)"

section \<open>States of a constructed engine\<close>

text \<open>
  What the constructor called with \<open>(p, q, taps)\<close> establishes and every call of
  \<open>resample\<close> keeps: the ratio, \<open>p\<close> partitions of \<open>taps\<close> coefficients, a path table
  filled by \<open>resize\<close>, and a history of \<open>taps-1\<close> samples (an \<open>unsigned\<close> subtraction).
\<close>

definition constructed :: "unsigned \<Rightarrow> unsigned \<Rightarrow> unsigned \<Rightarrow> ('s, 'd) resampler \<Rightarrow> bool" where
  "constructed p q taps e =
     (rs_P e = p \<and> rs_Q e = q \<and> p \<noteq> 0
      \<and> length (partitions e) = unat p
      \<and> list_all (\<lambda>h. length h = unat taps) (partitions e)
      \<and> paths e = map (path_entry p q) [0..<length (paths e)]
      \<and> length (history e) = unat (taps - 1))"

section \<open>Instances used in the worked examples\<close>

text \<open>
  Exact arithmetic on the reals as the \<open>double\<close> operations, and the element type
  \<open>double\<close> over it, whose conversions are the identity.
\<close>

definition exact_dbl :: "real dbl" where
  "exact_dbl =
     \<lparr>d_lit = (\<lambda>r. r), d_of_nat = real, m_pi = pi,
      d_add = (+), d_sub = (-), d_mul = (*), d_div = (/),
      d_less = (<), d_eq = (=), d_sin = sin, d_cos = cos\<rparr>"

definition f64_elem :: "(real, real) elem" where
  "f64_elem =
     \<lparr>is_integral = False,
      numeric_limits_min = 1 / 2 ^ 1022,
      numeric_limits_max = (2 ^ 53 - 1) * 2 ^ 971,
      to_double = (\<lambda>x. x), of_double = (\<lambda>x. x), t_zero = 0\<rparr>"

text \<open>A state of an engine with \<open>P = 1\<close>, \<open>Q = 1\<close> and two taps, and one of its complex twin.\<close>

definition demo :: "(real, real) resampler" where
  "demo = \<lparr>partitions = [[1 / 4, 3 / 4]], paths = [(0, 0), (1, 0)], rs_P = 1, rs_Q = 1,
           history = [8]\<rparr>"

definition cdemo :: "(real \<times> real, real) resampler" where
  "cdemo = \<lparr>partitions = [[1 / 4, 3 / 4]], paths = [(0, 0), (1, 0)], rs_P = 1, rs_Q = 1,
            history = [(8, 4)]\<rparr>"

section \<open>The size check\<close>

text \<open>
  The negation of the condition under which \<open>COPY_INPUT\<close> throws, for sizes \<open>isz\<close> of the
  input and \<open>osz\<close> of the output, with both divisors different from zero.
\<close>

definition accepts :: "('s, 'd) resampler \<Rightarrow> nat \<Rightarrow> nat \<Rightarrow> bool" where
  "accepts e isz osz =
     (rs_Q e \<noteq> 0 \<and> rs_P e \<noteq> 0
      \<and> isz mod unat (rs_Q e) = 0 \<and> osz mod unat (rs_P e) = 0
      \<and> isz div unat (rs_Q e) = osz div unat (rs_P e)
      \<and> length (history e) \<le> isz)"

section \<open>The filter of the specification\<close>

text \<open>
  The \<open>double\<close> counter \<open>i\<close> of the first loop of \<open>init\<close> after \<open>m\<close> rounds: \<open>0.0\<close>
  incremented \<open>m\<close> times.
\<close>

definition counter :: "'d dbl \<Rightarrow> nat \<Rightarrow> 'd" where
  "counter ops m = ((\<lambda>v. d_add ops v (d_lit ops 1)) ^^ m) (d_lit ops 0)"

text \<open>
  The prototype sample \<open>i\<close> in the words of the specification, for \<open>N = n\<close> and the
  cutoff \<open>c\<close>: \<open>sinc((i - N/2) / c)\<close>, with \<open>sinc(0) = 1\<close> and \<open>sinc(x) = sin(\<pi>x)/(\<pi>x)\<close>
  otherwise, times the window
  \<open>0.35875 - 0.48829 cos(2\<pi>i/N) + 0.14128 cos(4\<pi>i/N) - 0.01168 cos(6\<pi>i/N)\<close>.
  The operations are those of \<open>double\<close>, taken from left to right, and the index \<open>i\<close> is
  the \<open>double\<close> that counts it.
\<close>

definition spec_prototype :: "'d dbl \<Rightarrow> nat \<Rightarrow> 'd \<Rightarrow> nat \<Rightarrow> 'd" where
  "spec_prototype ops n c i =
     (let x = d_div ops (d_sub ops (counter ops i) (d_div ops (d_of_nat ops n) (d_lit ops 2))) c;
          cosine = (\<lambda>k. d_cos ops
            (d_div ops (d_mul ops (d_mul ops (d_lit ops k) (m_pi ops)) (counter ops i))
               (d_of_nat ops n)))
      in d_mul ops
           (if d_eq ops x (d_lit ops 0) then d_lit ops 1
            else d_div ops (d_sin ops (d_mul ops (m_pi ops) x)) (d_mul ops (m_pi ops) x))
           (d_sub ops
             (d_add ops
               (d_sub ops (d_lit ops 0.35875) (d_mul ops (d_lit ops 0.48829) (cosine 2)))
               (d_mul ops (d_lit ops 0.14128) (cosine 4)))
             (d_mul ops (d_lit ops 0.01168) (cosine 6))))"

text \<open>
  \<open>beta\<close> in the words of the specification: \<open>P\<close> divided by the sum of all \<open>N\<close>
  prototype samples, added up from \<open>0.0\<close> in the order of their indices.
\<close>

definition spec_beta :: "'d dbl \<Rightarrow> nat \<Rightarrow> nat \<Rightarrow> 'd \<Rightarrow> 'd" where
  "spec_beta ops p n c =
     d_div ops (d_of_nat ops p)
       (foldl (d_add ops) (d_lit ops 0) (map (spec_prototype ops n c) [0..<n]))"

section \<open>Successive calls\<close>

text \<open>
  A caller that feeds blocks to \<open>call\<close> (one of the two \<open>resample\<close> functions) one
  after the other, as the loop of \<open>main\<close> does, each block an input and the output
  vector for it. The outputs are concatenated; the first failing call ends the run.
\<close>

fun resample_blocks ::
  "(('s, 'd) resampler \<Rightarrow> 's list \<Rightarrow> 's list \<Rightarrow> (error + 's list) \<times> ('s, 'd) resampler)
     \<Rightarrow> ('s, 'd) resampler \<Rightarrow> ('s list \<times> 's list) list
     \<Rightarrow> (error + 's list) \<times> ('s, 'd) resampler" where
  "resample_blocks call e [] = (Inr [], e)"
| "resample_blocks call e (b # bs) =
     (case call e (fst b) (snd b) of
        (Inl err, e1) \<Rightarrow> (Inl err, e1)
      | (Inr out, e1) \<Rightarrow>
          (case resample_blocks call e1 bs of
             (Inl err, e2) \<Rightarrow> (Inl err, e2)
           | (Inr outs, e2) \<Rightarrow> (Inr (out @ outs), e2)))"

text \<open>Whether the size check of \<open>e\<close> accepts every block.\<close>

definition accepts_all :: "('s, 'd) resampler \<Rightarrow> ('s list \<times> 's list) list \<Rightarrow> bool" where
  "accepts_all e bs = list_all (\<lambda>b. accepts e (length (fst b)) (length (snd b))) bs"

section \<open>Integer element types\<close>

text \<open>
  The conversion of a \<open>double\<close> to an integer type drops the fraction. Where the result
  does not fit the type the C++ standard leaves the behaviour undefined; the instance
  below wraps there.
\<close>

definition drop_fraction :: "real \<Rightarrow> int" where
  "drop_fraction r = (if r < 0 then - \<lfloor>- r\<rfloor> else \<lfloor>r\<rfloor>)"

text \<open>
  The \<open>double\<close> nearest to an integer \<open>k\<close> with \<open>|k| \<le> 2^64\<close>, ties to even: \<open>double\<close>
  has 53 bits of precision, so the lowest \<open>e\<close> bits of a magnitude of \<open>53 + e\<close> bits are
  rounded off; \<open>e\<close> is the number of the powers \<open>2^53\<close>, ..., \<open>2^64\<close> that the
  magnitude reaches.
\<close>

definition round_to_double :: "int \<Rightarrow> real" where
  "round_to_double k =
     (let a = \<bar>k\<bar>;
          e = length (filter (\<lambda>t. t \<le> a)
                [9007199254740992, 18014398509481984, 36028797018963968,
                 72057594037927936, 144115188075855872, 288230376151711744,
                 576460752303423488, 1152921504606846976, 2305843009213693952,
                 4611686018427387904, 9223372036854775808, 18446744073709551616]);
          q = a div 2 ^ e;
          r = a mod 2 ^ e;
          m = (if 2 ^ e < 2 * r \<or> (2 * r = 2 ^ e \<and> odd q) then q + 1 else q)
      in real_of_int (sgn k * m * 2 ^ e))"

text \<open>The 64-bit \<open>long\<close> over exact arithmetic.\<close>

definition s64_elem :: "(64 word, real) elem" where
  "s64_elem =
     \<lparr>is_integral = True,
      numeric_limits_min = - 9223372036854775808, numeric_limits_max = 9223372036854775807,
      to_double = (\<lambda>w. round_to_double (sint w)),
      of_double = (\<lambda>r. word_of_int (drop_fraction r)), t_zero = 0\<rparr>"

section \<open>The output of the specification\<close>

text \<open>
  Output sample \<open>i\<close> in the words of the specification, for an engine \<open>e\<close> with \<open>taps\<close>
  taps and the input \<open>input\<close>: \<open>kern\<close> applied to \<open>partitions[(Q*i) mod P]\<close> and to the
  \<open>taps\<close> samples at offset \<open>floor(Q*i/P)\<close> of the history followed by the input.
\<close>

definition spec_sample ::
  "('d list \<Rightarrow> 's list \<Rightarrow> 's) \<Rightarrow> ('s, 'd) resampler \<Rightarrow> nat \<Rightarrow> 's list \<Rightarrow> nat \<Rightarrow> 's" where
  "spec_sample kern e taps input i =
     kern (partitions e ! (unat (rs_Q e) * i mod unat (rs_P e)))
       (take taps (drop (unat (rs_Q e) * i div unat (rs_P e)) (history e @ input)))"

section \<open>Failed validation\<close>

lemma output_sample_not_invalid: "output_sample kern parts x pe \<noteq> Inl InvalidArgument"
  by (simp add: output_sample_def Let_def)

lemma output_loop_error:
  "output_loop f pes = Inl err \<Longrightarrow> \<exists>pe \<in> set pes. f pe = Inl err"
  by (induction pes) (auto split: sum.splits)

lemma output_loop_not_invalid:
  "output_loop (output_sample kern parts x) pes \<noteq> Inl InvalidArgument"
  using output_loop_error output_sample_not_invalid by fastforce

lemma resize_not_invalid: "resize e n \<noteq> Inl InvalidArgument"
  by (simp add: resize_def)

lemma resample_body_invalid_state:
  assumes "fst (resample_body kern e input output) = Inl InvalidArgument"
  shows "snd (resample_body kern e input output) = e"
  using assms
  unfolding resample_body_def Let_def
  by (auto split: if_splits sum.splits simp: output_loop_not_invalid resize_not_invalid)

lemma resample_body_invalid_iff:
  assumes "rs_P e \<noteq> 0" and "rs_Q e \<noteq> 0"
  shows "fst (resample_body kern e input output) = Inl InvalidArgument \<longleftrightarrow>
         \<not> (length input mod unat (rs_Q e) = 0 \<and> length output mod unat (rs_P e) = 0
            \<and> length input div unat (rs_Q e) = length output div unat (rs_P e)
            \<and> length (history e) \<le> length input)"
  using assms
  unfolding resample_body_def Let_def
  by (auto split: if_splits sum.splits simp: output_loop_not_invalid resize_not_invalid)

lemma unat_taps_minus_1: "taps \<noteq> 0 \<Longrightarrow> unat (taps - 1) = unat taps - 1" for taps :: unsigned
  by (simp add: unat_minus_one)

lemma constructed_demo: "constructed 1 1 2 demo"
  by (simp add: constructed_def demo_def path_entry_def)

lemma constructed_cdemo: "constructed 1 1 2 cdemo"
  by (simp add: constructed_def cdemo_def path_entry_def)

text \<open>
  C10. When \<open>resample\<close> fails with the \<open>invalid_argument\<close> exception, every member of the
  engine is as it was before the call: partitions, path table, ratio and history. The
  size check is the first statement of \<open>COPY_INPUT\<close>, before the path table is resized
  and before the history is overwritten. Stated for the real and for the complex engine.
\<close>

theorem C10_invalid_argument_keeps_engine:
  "(fst (RealResampler_resample ops el e input output) = Inl InvalidArgument
      \<longrightarrow> snd (RealResampler_resample ops el e input output) = e)
   \<and> (fst (ComplexResampler_resample ops el ce cinput coutput) = Inl InvalidArgument
      \<longrightarrow> snd (ComplexResampler_resample ops el ce cinput coutput) = ce)"
  by (simp add: RealResampler_resample_def ComplexResampler_resample_def
      resample_body_invalid_state)

text \<open>
  An instance: the two-tap engine is called with an empty input, shorter than its
  history, and an output of 200 samples, more than the path table holds.
\<close>

theorem C10_invalid_argument_keeps_engine_witness:
  "fst (RealResampler_resample exact_dbl f64_elem demo [] (replicate 200 0)) = Inl InvalidArgument
   \<and> snd (RealResampler_resample exact_dbl f64_elem demo [] (replicate 200 0)) = demo
   \<and> fst (ComplexResampler_resample exact_dbl f64_elem cdemo [] (replicate 200 (0, 0)))
       = Inl InvalidArgument
   \<and> snd (ComplexResampler_resample exact_dbl f64_elem cdemo [] (replicate 200 (0, 0))) = cdemo"
proof -
  have r: "fst (RealResampler_resample exact_dbl f64_elem demo [] (replicate 200 0))
             = Inl InvalidArgument"
    by (simp add: RealResampler_resample_def resample_body_def demo_def)
  have c: "fst (ComplexResampler_resample exact_dbl f64_elem cdemo [] (replicate 200 (0, 0)))
             = Inl InvalidArgument"
    by (simp add: ComplexResampler_resample_def resample_body_def cdemo_def)
  from r c
    C10_invalid_argument_keeps_engine [of exact_dbl f64_elem demo "[]" "replicate 200 0"
      cdemo "[]" "replicate 200 (0, 0)"]
  show ?thesis by blast
qed

section \<open>Construction and the invariant\<close>

lemma resize_Inr:
  "rs_P e \<noteq> 0 \<Longrightarrow> resize e n = Inr (e\<lparr>paths := map (path_entry (rs_P e) (rs_Q e)) [0..<n]\<rparr>)"
  by (simp add: resize_def)

lemma length_init: "length (init ops p taps cutoff) = unat p"
  by (simp add: init_def Let_def)

lemma list_all_init: "list_all (\<lambda>h. length h = unat taps) (init ops p taps cutoff)"
  by (simp add: init_def Let_def list_all_iff)

lemma construct_cases:
  "construct ops zero p q taps =
     (if p = 0 then Inl DivisionByZero
      else Inr \<lparr>partitions = init ops p taps (d_of_nat ops (unat (if q < p then p else q))),
                paths = map (path_entry p q) [0..<DEFAULT_PATH_LEN], rs_P = p, rs_Q = q,
                history = replicate (unat (taps - 1)) zero\<rparr>)"
  by (simp add: construct_def resize_def DEFAULT_PATH_LEN_def)

lemma construct_constructed:
  "construct ops zero p q taps = Inr e \<Longrightarrow> constructed p q taps e"
  by (auto simp: construct_cases constructed_def length_init list_all_init split: if_splits)

lemma construct_history:
  "construct ops zero p q taps = Inr e \<Longrightarrow> history e = replicate (unat (taps - 1)) zero"
  by (auto simp: construct_cases split: if_splits)

lemma resample_body_keeps:
  assumes "constructed p q taps e"
  shows "constructed p q taps (snd (resample_body kern e input output))"
  using assms
  unfolding resample_body_def Let_def
  by (auto simp: constructed_def resize_def split: if_splits sum.splits)

lemma resample_body_success_state:
  assumes "fst (resample_body kern e input output) = Inr out"
  shows "history (snd (resample_body kern e input output))
           = drop (length input - length (history e)) input
         \<and> length (history e) \<le> length input
         \<and> partitions (snd (resample_body kern e input output)) = partitions e
         \<and> rs_P (snd (resample_body kern e input output)) = rs_P e
         \<and> rs_Q (snd (resample_body kern e input output)) = rs_Q e"
  using assms
  unfolding resample_body_def Let_def
  by (auto simp: resize_def split: if_splits sum.splits)

lemma f64_zero: "t_zero f64_elem = 0"
  by (simp add: f64_elem_def)

lemma demo_run:
  "RealResampler_resample exact_dbl f64_elem demo [2, 6] [0, 0]
     = (Inr [7 / 2, 5], demo\<lparr>history := [6]\<rparr>)"
  by (simp add: RealResampler_resample_def resample_body_def demo_def output_sample_def
      real_sample_def real_accum_def saturate_def f64_elem_def exact_dbl_def Let_def)

lemma cdemo_run:
  "ComplexResampler_resample exact_dbl f64_elem cdemo [(2, 0), (6, 4)] [(0, 0), (0, 0)]
     = (Inr [(7 / 2, 1), (5, 3)], cdemo\<lparr>history := [(6, 4)]\<rparr>)"
  by (simp add: ComplexResampler_resample_def resample_body_def cdemo_def output_sample_def
      complex_sample_def complex_accum_def saturate_def f64_elem_def exact_dbl_def Let_def)

text \<open>
  C2. On an engine constructed with positive \<open>P\<close>, \<open>Q\<close> and \<open>taps\<close>, \<open>resample\<close> fails with
  the \<open>invalid_argument\<close> exception exactly when one of the four conditions
  \<open>|input| % Q == 0\<close>, \<open>|output| % P == 0\<close>, \<open>|input|/Q == |output|/P\<close> and
  \<open>|input| \<ge> taps-1\<close> is violated, and then the history is the one before the call.
  Stated for the real engine \<open>e\<close> and the complex engine \<open>ce\<close>.
\<close>

theorem C2_invalid_argument_iff:
  assumes "constructed p q taps e" and "constructed p q taps ce"
    and "q \<noteq> 0" and "taps \<noteq> 0"
  shows
    "(fst (RealResampler_resample ops el e input output) = Inl InvalidArgument
        \<longleftrightarrow> \<not> (length input mod unat q = 0 \<and> length output mod unat p = 0
               \<and> length input div unat q = length output div unat p
               \<and> unat taps - 1 \<le> length input))
     \<and> (fst (RealResampler_resample ops el e input output) = Inl InvalidArgument
        \<longrightarrow> history (snd (RealResampler_resample ops el e input output)) = history e)
     \<and> (fst (ComplexResampler_resample ops el ce cinput coutput) = Inl InvalidArgument
        \<longleftrightarrow> \<not> (length cinput mod unat q = 0 \<and> length coutput mod unat p = 0
               \<and> length cinput div unat q = length coutput div unat p
               \<and> unat taps - 1 \<le> length cinput))
     \<and> (fst (ComplexResampler_resample ops el ce cinput coutput) = Inl InvalidArgument
        \<longrightarrow> history (snd (ComplexResampler_resample ops el ce cinput coutput)) = history ce)"
proof -
  from assms have e: "rs_P e \<noteq> 0" "rs_Q e \<noteq> 0" "rs_P e = p" "rs_Q e = q"
      "length (history e) = unat taps - 1"
    by (simp_all add: constructed_def unat_taps_minus_1)
  from assms have ce: "rs_P ce \<noteq> 0" "rs_Q ce \<noteq> 0" "rs_P ce = p" "rs_Q ce = q"
      "length (history ce) = unat taps - 1"
    by (simp_all add: constructed_def unat_taps_minus_1)
  have r1: "fst (RealResampler_resample ops el e input output) = Inl InvalidArgument
        \<longleftrightarrow> \<not> (length input mod unat q = 0 \<and> length output mod unat p = 0
               \<and> length input div unat q = length output div unat p
               \<and> unat taps - 1 \<le> length input)"
    unfolding RealResampler_resample_def
    using resample_body_invalid_iff [OF e(1) e(2), of "real_sample ops el" input "output"]
    by (simp add: e)
  have c1: "fst (ComplexResampler_resample ops el ce cinput coutput) = Inl InvalidArgument
        \<longleftrightarrow> \<not> (length cinput mod unat q = 0 \<and> length coutput mod unat p = 0
               \<and> length cinput div unat q = length coutput div unat p
               \<and> unat taps - 1 \<le> length cinput)"
    unfolding ComplexResampler_resample_def
    using resample_body_invalid_iff [OF ce(1) ce(2), of "complex_sample ops el" cinput coutput]
    by (simp add: ce)
  have r2: "fst (RealResampler_resample ops el e input output) = Inl InvalidArgument
        \<longrightarrow> history (snd (RealResampler_resample ops el e input output)) = history e"
    by (simp add: RealResampler_resample_def resample_body_invalid_state)
  have c2: "fst (ComplexResampler_resample ops el ce cinput coutput) = Inl InvalidArgument
        \<longrightarrow> history (snd (ComplexResampler_resample ops el ce cinput coutput)) = history ce"
    by (simp add: ComplexResampler_resample_def resample_body_invalid_state)
  from r1 r2 c1 c2 show ?thesis by blast
qed

text \<open>
  An instance: the two-tap engine with \<open>P = Q = 1\<close> rejects an empty input (shorter than
  \<open>taps-1 = 1\<close>) and keeps its history.
\<close>

theorem C2_invalid_argument_iff_witness:
  "constructed 1 1 2 demo \<and> constructed 1 1 2 cdemo \<and> (1 :: unsigned) \<noteq> 0 \<and> (2 :: unsigned) \<noteq> 0
   \<and> fst (RealResampler_resample exact_dbl f64_elem demo [] []) = Inl InvalidArgument
   \<and> history (snd (RealResampler_resample exact_dbl f64_elem demo [] [])) = history demo
   \<and> fst (ComplexResampler_resample exact_dbl f64_elem cdemo [] []) = Inl InvalidArgument
   \<and> history (snd (ComplexResampler_resample exact_dbl f64_elem cdemo [] [])) = history cdemo"
  using C2_invalid_argument_iff [OF constructed_demo constructed_cdemo, of exact_dbl f64_elem
      "[]" "[]" "[]" "[]"]
    constructed_demo constructed_cdemo
  by simp

text \<open>
  C6. With \<open>taps\<close> positive: the constructors leave a history of \<open>taps-1\<close> zeros; after
  every successful \<open>resample\<close> on a constructed engine the history is the last \<open>taps-1\<close>
  samples of the input, still \<open>taps-1\<close> long; and the partitions and the ratio, the
  other members that the samples of the next call meet, are unchanged.
\<close>

theorem C6_history:
  assumes "taps \<noteq> 0"
  shows
    "(RealResampler ops el p q taps = Inr e0
        \<longrightarrow> history e0 = replicate (unat taps - 1) (t_zero el))
     \<and> (ComplexResampler ops el p q taps = Inr c0
        \<longrightarrow> history c0 = replicate (unat taps - 1) (t_zero el, t_zero el))
     \<and> (constructed p q taps e \<and> fst (RealResampler_resample ops el e input output) = Inr out
        \<longrightarrow> history (snd (RealResampler_resample ops el e input output))
              = drop (length input - (unat taps - 1)) input
            \<and> length (history (snd (RealResampler_resample ops el e input output)))
              = unat taps - 1
            \<and> partitions (snd (RealResampler_resample ops el e input output)) = partitions e
            \<and> rs_P (snd (RealResampler_resample ops el e input output)) = rs_P e
            \<and> rs_Q (snd (RealResampler_resample ops el e input output)) = rs_Q e)
     \<and> (constructed p q taps ce
          \<and> fst (ComplexResampler_resample ops el ce cinput coutput) = Inr cout
        \<longrightarrow> history (snd (ComplexResampler_resample ops el ce cinput coutput))
              = drop (length cinput - (unat taps - 1)) cinput
            \<and> length (history (snd (ComplexResampler_resample ops el ce cinput coutput)))
              = unat taps - 1
            \<and> partitions (snd (ComplexResampler_resample ops el ce cinput coutput))
              = partitions ce
            \<and> rs_P (snd (ComplexResampler_resample ops el ce cinput coutput)) = rs_P ce
            \<and> rs_Q (snd (ComplexResampler_resample ops el ce cinput coutput)) = rs_Q ce)"
proof -
  note t = unat_taps_minus_1 [OF assms]
  have a: "RealResampler ops el p q taps = Inr e0
        \<longrightarrow> history e0 = replicate (unat taps - 1) (t_zero el)"
    by (auto simp: RealResampler_def t dest: construct_history)
  have b: "ComplexResampler ops el p q taps = Inr c0
        \<longrightarrow> history c0 = replicate (unat taps - 1) (t_zero el, t_zero el)"
    by (auto simp: ComplexResampler_def t dest: construct_history)
  have body: "history (snd (resample_body kern s inp outp))
              = drop (length inp - (unat taps - 1)) inp
            \<and> length (history (snd (resample_body kern s inp outp))) = unat taps - 1
            \<and> partitions (snd (resample_body kern s inp outp)) = partitions s
            \<and> rs_P (snd (resample_body kern s inp outp)) = rs_P s
            \<and> rs_Q (snd (resample_body kern s inp outp)) = rs_Q s"
    if c: "constructed p q taps s" and ok: "fst (resample_body kern s inp outp) = Inr res"
    for kern and s :: "('s, 'd) resampler" and inp outp res
  proof -
    from c have h: "length (history s) = unat taps - 1"
      by (simp add: constructed_def t)
    from resample_body_keeps [OF c, of kern inp outp]
    have "length (history (snd (resample_body kern s inp outp))) = unat taps - 1"
      by (simp add: constructed_def t)
    with resample_body_success_state [OF ok] h show ?thesis by simp
  qed
  from a b body [of e "real_sample ops el" input "output" out]
    body [of ce "complex_sample ops el" cinput coutput cout]
  show ?thesis
    unfolding RealResampler_resample_def ComplexResampler_resample_def by blast
qed

text \<open>
  An instance: engines constructed with \<open>(1, 1, 2)\<close> start with the history \<open>[0]\<close>; the
  two-tap engine, called with the input \<open>[2, 6]\<close>, ends with the history \<open>[6]\<close>.
\<close>

theorem C6_history_witness:
  "(2 :: unsigned) \<noteq> 0
   \<and> RealResampler exact_dbl f64_elem 1 1 2 = Inr (projr (RealResampler exact_dbl f64_elem 1 1 2))
   \<and> history (projr (RealResampler exact_dbl f64_elem 1 1 2)) = [0]
   \<and> ComplexResampler exact_dbl f64_elem 1 1 2
       = Inr (projr (ComplexResampler exact_dbl f64_elem 1 1 2))
   \<and> history (projr (ComplexResampler exact_dbl f64_elem 1 1 2)) = [(0, 0)]
   \<and> constructed 1 1 2 demo
   \<and> fst (RealResampler_resample exact_dbl f64_elem demo [2, 6] [0, 0]) = Inr [7 / 2, 5]
   \<and> history (snd (RealResampler_resample exact_dbl f64_elem demo [2, 6] [0, 0])) = [6]
   \<and> constructed 1 1 2 cdemo
   \<and> fst (ComplexResampler_resample exact_dbl f64_elem cdemo [(2, 0), (6, 4)] [(0, 0), (0, 0)])
       = Inr [(7 / 2, 1), (5, 3)]
   \<and> history (snd (ComplexResampler_resample exact_dbl f64_elem cdemo [(2, 0), (6, 4)]
        [(0, 0), (0, 0)])) = [(6, 4)]"
proof -
  have two: "(2 :: unsigned) \<noteq> 0" by simp
  have r: "RealResampler exact_dbl f64_elem 1 1 2
             = Inr (projr (RealResampler exact_dbl f64_elem 1 1 2))"
    by (simp add: RealResampler_def construct_cases)
  have c: "ComplexResampler exact_dbl f64_elem 1 1 2
             = Inr (projr (ComplexResampler exact_dbl f64_elem 1 1 2))"
    by (simp add: ComplexResampler_def construct_cases)
  from C6_history [OF two, of exact_dbl f64_elem 1 1
      "projr (RealResampler exact_dbl f64_elem 1 1 2)"
      "projr (ComplexResampler exact_dbl f64_elem 1 1 2)"
      demo "[2, 6]" "[0, 0]" "[7 / 2, 5]" cdemo "[(2, 0), (6, 4)]" "[(0, 0), (0, 0)]"
      "[(7 / 2, 1), (5, 3)]"]
    r c constructed_demo constructed_cdemo
  show ?thesis
    by (simp add: demo_run cdemo_run f64_zero)
qed


section \<open>Path entries\<close>

lemma sint_small:
  fixes w :: unsigned
  assumes "unat w < 2147483648"
  shows "sint w = int (unat w)"
proof -
  have l: "LENGTH(32) - Suc 0 = 31" by simp
  have p: "(2 :: int) ^ 31 = 2147483648" by simp
  have u: "uint w = int (unat w)" by (rule uint_nat)
  from assms have up: "uint w < 2 ^ 31"
    unfolding p u by linarith
  have lo: "- (2 ^ 31) \<le> uint w"
    unfolding p u by linarith
  have "sint w = signed_take_bit (LENGTH(32) - Suc 0) (uint w)"
    by (rule sint_uint)
  also have "\<dots> = uint w"
    unfolding l using lo up by (rule signed_take_bit_int_eq_self)
  finally show ?thesis unfolding u .
qed

lemma sint_large:
  fixes w :: unsigned
  assumes "2147483648 \<le> unat w"
  shows "sint w < 0"
proof (rule ccontr)
  assume "\<not> sint w < 0"
  then have nn: "0 \<le> sint w" by simp
  have l: "LENGTH(32) - Suc 0 = 31" by simp
  have p: "(2 :: int) ^ 31 = 2147483648" by simp
  have p32: "(2 :: int) ^ LENGTH(32) = 4294967296" by simp
  have "sint w < 2 ^ (LENGTH(32) - Suc 0)" by (rule sint_less)
  then have lt: "sint w < 2147483648" unfolding l p .
  have "w = word_of_int (sint w)" by simp
  then have "uint w = uint (word_of_int (sint w) :: unsigned)" by (rule arg_cong)
  also have "\<dots> = sint w mod 2 ^ LENGTH(32)"
    by (rule uint_word_of_int)
  also have "\<dots> = sint w"
    unfolding p32 using nn lt by (intro mod_pos_pos_trivial) linarith+
  finally have "int (unat w) < 2147483648" using lt unfolding uint_nat by linarith
  with assms show False by linarith
qed

lemma unat_q_times:
  fixes q :: unsigned
  shows "unat (q * of_nat i) = (unat q * i) mod 4294967296"
  by (simp add: unat_word_ariths unat_of_nat mod_mult_right_eq)

text \<open>The entry as the claim has it, as long as \<open>Q * i\<close> stays below \<open>2^31\<close>.\<close>

lemma path_entry_exact:
  assumes "unat q * i < 2147483648"
  shows "path_entry p q i = (int (unat q * i div unat p), int (unat q * i mod unat p))"
proof -
  let ?a = "q * of_nat i"
  have a: "unat ?a = unat q * i"
    using assms by (simp add: unat_q_times)
  have d: "unat (?a div p) = unat q * i div unat p"
    by (simp add: unat_div a)
  have m: "unat (?a mod p) = unat q * i mod unat p"
    by (simp add: unat_mod a)
  have "unat q * i div unat p \<le> unat q * i" by simp
  with assms d have d31: "unat (?a div p) < 2147483648" by linarith
  have "unat q * i mod unat p \<le> unat q * i" by simp
  with assms m have m31: "unat (?a mod p) < 2147483648" by linarith
  show ?thesis
    by (simp add: path_entry_def sint_small [OF d31] sint_small [OF m31] d m)
qed

text \<open>
  Below \<open>2^32\<close> the product does not wrap, and the entry is the claim's as soon as
  its two components are not negative as \<open>int\<close>.
\<close>

lemma path_entry_exact32:
  assumes "unat q * i < 4294967296"
    and "0 \<le> fst (path_entry p q i)" and "0 \<le> snd (path_entry p q i)"
  shows "path_entry p q i = (int (unat q * i div unat p), int (unat q * i mod unat p))"
proof -
  let ?a = "q * of_nat i"
  have a: "unat ?a = unat q * i"
    using assms(1) by (simp add: unat_q_times)
  have d: "unat (?a div p) = unat q * i div unat p"
    by (simp add: unat_div a)
  have m: "unat (?a mod p) = unat q * i mod unat p"
    by (simp add: unat_mod a)
  from assms(2) have "\<not> sint (?a div p) < 0"
    by (simp add: path_entry_def)
  with sint_large [of "?a div p"] have d31: "unat (?a div p) < 2147483648"
    by linarith
  from assms(3) have "\<not> sint (?a mod p) < 0"
    by (simp add: path_entry_def)
  with sint_large [of "?a mod p"] have m31: "unat (?a mod p) < 2147483648"
    by linarith
  show ?thesis
    by (simp add: path_entry_def sint_small [OF d31] sint_small [OF m31] d m)
qed

section \<open>What a call computes\<close>

lemma output_loop_Inr_nth:
  "output_loop f pes = Inr ys \<Longrightarrow>
     length ys = length pes \<and> (\<forall>i<length pes. f (pes ! i) = Inr (ys ! i))"
proof (induction pes arbitrary: ys)
  case Nil
  then show ?case by simp
next
  case (Cons pe pes)
  from Cons.prems obtain y zs where y: "f pe = Inr y" and zs: "output_loop f pes = Inr zs"
    and ys: "ys = y # zs"
    by (auto split: sum.splits)
  from Cons.IH [OF zs] y ys show ?case
    by (auto simp: nth_Cons split: nat.splits)
qed

lemma output_loop_all_Inr:
  "(\<And>pe. pe \<in> set pes \<Longrightarrow> \<exists>y. f pe = Inr y) \<Longrightarrow> \<exists>ys. output_loop f pes = Inr ys"
proof (induction pes)
  case Nil
  then show ?case by simp
next
  case (Cons pe pes)
  then obtain y where "f pe = Inr y" by auto
  moreover from Cons obtain zs where "output_loop f pes = Inr zs" by auto
  ultimately show ?case by simp
qed

lemma take_paths:
  assumes "paths e = map (path_entry p q) [0..<length (paths e)]" and "n \<le> length (paths e)"
  shows "take n (paths e) = map (path_entry p q) [0..<n]"
proof -
  have "take n (paths e) = take n (map (path_entry p q) [0..<length (paths e)])"
    using assms(1) by simp
  also have "\<dots> = map (path_entry p q) [0..<n]"
    using assms(2) by (simp add: take_map min_def)
  finally show ?thesis .
qed

lemma resample_body_accepted:
  assumes c: "constructed p q taps e" and a: "accepts e (length input) (length output)"
  shows "resample_body kern e input output =
     (output_loop (output_sample kern (partitions e) (history e @ input))
        (map (path_entry p q) [0..<length output]),
      e\<lparr>paths := (if length (paths e) < length output
                   then map (path_entry p q) [0..<length output] else paths e),
        history := drop (length input - length (history e)) input\<rparr>)"
proof (cases "length (paths e) < length output")
  case True
  with c a show ?thesis
    by (simp add: resample_body_def accepts_def constructed_def resize_def Let_def)
next
  case False
  with c have "take (length output) (paths e) = map (path_entry p q) [0..<length output]"
    by (intro take_paths) (simp_all add: constructed_def)
  with False c a show ?thesis
    by (simp add: resample_body_def accepts_def constructed_def Let_def)
qed

lemma resample_body_Inr_accepts:
  assumes "fst (resample_body kern e input output) = Inr out"
  shows "accepts e (length input) (length output)"
  using assms
  unfolding resample_body_def accepts_def Let_def
  by (auto split: if_splits)

lemma output_sample_Inr:
  assumes "output_sample kern parts x pe = Inr y"
  shows "0 \<le> snd pe \<and> nat (snd pe) < length parts \<and> 0 \<le> fst pe
         \<and> nat (fst pe) + length (parts ! nat (snd pe)) \<le> length x
         \<and> y = kern (parts ! nat (snd pe))
                 (take (length (parts ! nat (snd pe))) (drop (nat (fst pe)) x))"
  using assms
  unfolding output_sample_def Let_def
  by (auto split: if_splits)

text \<open>
  Every sample of a successful call, from the path entry that the code computes for
  its index.
\<close>

lemma resample_body_output:
  assumes c: "constructed p q taps e"
    and ok: "fst (resample_body kern e input output) = Inr out"
  shows "length out = length output"
    and "i < length output \<Longrightarrow>
         out ! i = kern (partitions e ! nat (snd (path_entry p q i)))
                     (take (unat taps) (drop (nat (fst (path_entry p q i))) (history e @ input)))"
proof -
  note a = resample_body_Inr_accepts [OF ok]
  from ok resample_body_accepted [OF c a, of kern]
  have l: "output_loop (output_sample kern (partitions e) (history e @ input))
             (map (path_entry p q) [0..<length output]) = Inr out"
    by simp
  from output_loop_Inr_nth [OF l] show n: "length out = length output"
    by simp
  assume i: "i < length output"
  with output_loop_Inr_nth [OF l]
  have s: "output_sample kern (partitions e) (history e @ input) (path_entry p q i)
             = Inr (out ! i)"
    by simp
  note b = output_sample_Inr [OF s]
  from c b have "length (partitions e ! nat (snd (path_entry p q i))) = unat taps"
    by (simp add: constructed_def list_all_length)
  with b show "out ! i = kern (partitions e ! nat (snd (path_entry p q i)))
                     (take (unat taps) (drop (nat (fst (path_entry p q i))) (history e @ input)))"
    by simp
qed

section \<open>Accesses of the loop\<close>

text \<open>
  With at most \<open>2^31\<close> input samples and at most \<open>2^31\<close> partitions every path entry
  that the code computes, wrapped or not, stays inside the partitions and inside the
  extended buffer.
\<close>

lemma output_sample_nat:
  assumes "m < length parts" and "d + length (parts ! m) \<le> length x"
  shows "output_sample kern parts x (int d, int m)
           = Inr (kern (parts ! m) (take (length (parts ! m)) (drop d x)))"
proof -
  from assms(1) have "\<not> (int m < 0 \<or> int (length parts) \<le> int m)" by linarith
  moreover from assms(2) have "\<not> (int d < 0 \<or> int (length x) < int d + int (length (parts ! m)))"
    by linarith
  ultimately show ?thesis
    unfolding output_sample_def Let_def fst_conv snd_conv nat_int
    by (simp only: if_False)
qed

lemma accepted_entry_in_bounds:
  assumes c: "constructed p q taps e" and a: "accepts e (length input) (length output)"
    and small: "length input \<le> 2147483648" "unat p \<le> 2147483648"
    and i: "i < length output"
  shows "\<exists>y. output_sample kern (partitions e) (history e @ input) (path_entry p q i) = Inr y"
proof -
  let ?a = "q * of_nat i"
  let ?P = "unat p" and ?Q = "unat q"
  from c have P: "rs_P e = p" and Q: "rs_Q e = q" and p0: "0 < ?P"
    and parts: "length (partitions e) = ?P"
    and taps: "list_all (\<lambda>h. length h = unat taps) (partitions e)"
    and hist: "length (history e) = unat (taps - 1)"
    by (simp_all add: constructed_def unat_gt_0)
  from a P Q have q0: "0 < ?Q" and im: "length input mod ?Q = 0"
    and om: "length output mod ?P = 0"
    and k: "length input div ?Q = length output div ?P"
    and hl: "length (history e) \<le> length input"
    by (simp_all add: accepts_def unat_gt_0)
  from im have inp: "length input = ?Q * (length input div ?Q)" by auto
  from om have outp: "length output = ?P * (length output div ?P)" by auto
  have au: "unat ?a \<le> ?Q * i"
    by (simp add: unat_q_times)
  have "?Q * i < ?Q * length output"
    using i q0 by simp
  also have "\<dots> = length input * ?P"
    using inp outp k by (metis mult.assoc mult.commute)
  finally have "?Q * i div ?P < length input"
    using p0 by (simp add: less_mult_imp_div_less)
  moreover have "unat ?a div ?P \<le> ?Q * i div ?P"
    using au by (rule div_le_mono)
  ultimately have d: "unat ?a div ?P < length input" by linarith
  have m: "unat ?a mod ?P < ?P"
    using p0 by simp
  have du: "unat (?a div p) = unat ?a div ?P" by (simp add: unat_div)
  have mu: "unat (?a mod p) = unat ?a mod ?P" by (simp add: unat_mod)
  from d small(1) du have d31: "unat (?a div p) < 2147483648" by linarith
  have sd: "sint (?a div p) = int (unat ?a div ?P)"
    using sint_small [OF d31] unfolding du .
  from m small(2) mu have m31: "unat (?a mod p) < 2147483648" by linarith
  have sm: "sint (?a mod p) = int (unat ?a mod ?P)"
    using sint_small [OF m31] unfolding mu .
  have pe: "path_entry p q i = (int (unat ?a div ?P), int (unat ?a mod ?P))"
    by (simp add: path_entry_def sd sm)
  from taps m parts have hlen: "length (partitions e ! (unat ?a mod ?P)) = unat taps"
    by (simp add: list_all_length)
  have "unat ?a div ?P + unat taps \<le> unat (taps - 1) + length input"
  proof (cases "taps = 0")
    case True
    then show ?thesis using d by simp
  next
    case False
    then have "unat (taps - 1) = unat taps - 1" and "0 < unat taps"
      by (simp_all add: unat_taps_minus_1 unat_gt_0)
    then show ?thesis using d by linarith
  qed
  with hlen hist have "unat ?a div ?P + length (partitions e ! (unat ?a mod ?P))
      \<le> length (history e @ input)"
    by simp
  with m parts show ?thesis
    unfolding pe by (simp add: output_sample_nat)
qed

lemma resample_body_succeeds:
  assumes c: "constructed p q taps e" and a: "accepts e (length input) (length output)"
    and small: "length input \<le> 2147483648" "unat p \<le> 2147483648"
  shows "\<exists>out. fst (resample_body kern e input output) = Inr out"
proof -
  have "\<exists>ys. output_loop (output_sample kern (partitions e) (history e @ input))
          (map (path_entry p q) [0..<length output]) = Inr ys"
  proof (rule output_loop_all_Inr)
    fix pe
    assume "pe \<in> set (map (path_entry p q) [0..<length output])"
    then obtain i where "i < length output" and "pe = path_entry p q i" by auto
    with accepted_entry_in_bounds [OF c a small, of i kern]
    show "\<exists>y. output_sample kern (partitions e) (history e @ input) pe = Inr y"
      by simp
  qed
  then show ?thesis
    by (simp add: resample_body_accepted [OF c a])
qed

text \<open>A path entry with a negative component makes the loop read out of bounds.\<close>

lemma output_loop_fails:
  assumes "pe \<in> set pes" and "f pe = Inl err0"
  shows "\<exists>err. output_loop f pes = Inl err"
  using assms
proof (induction pes)
  case Nil
  then show ?case by simp
next
  case (Cons a pes)
  show ?case
  proof (cases "f a")
    case (Inl x)
    then show ?thesis by simp
  next
    case (Inr y)
    with Cons.prems have "pe \<in> set pes" by auto
    from Cons.IH [OF this Cons.prems(2)] Inr show ?thesis by auto
  qed
qed

lemma output_sample_error: "output_sample kern parts x pe = Inl err \<Longrightarrow> err = OutOfBounds"
  by (auto simp: output_sample_def Let_def split: if_splits)

lemma resample_body_out_of_bounds:
  assumes c: "constructed p q taps e" and a: "accepts e (length input) (length output)"
    and i: "i < length output"
    and neg: "fst (path_entry p q i) < 0 \<or> snd (path_entry p q i) < 0"
  shows "fst (resample_body kern e input output) = Inl OutOfBounds"
proof -
  let ?f = "output_sample kern (partitions e) (history e @ input)"
  from neg have fail: "?f (path_entry p q i) = Inl OutOfBounds"
    by (auto simp: output_sample_def Let_def)
  from i have mem: "path_entry p q i \<in> set (map (path_entry p q) [0..<length output])"
    by simp
  from output_loop_fails [where f = ?f and pe = "path_entry p q i", OF mem fail] obtain err where
    err: "output_loop ?f (map (path_entry p q) [0..<length output]) = Inl err" ..
  from output_loop_error [OF err] obtain pe where "?f pe = Inl err" by blast
  then have "err = OutOfBounds" by (rule output_sample_error)
  with err show ?thesis
    by (simp add: resample_body_accepted [OF c a])
qed

lemma resample_body_paths:
  assumes c: "constructed p q taps e" and a: "accepts e (length input) (length output)"
    and i: "i < length output"
  shows "paths (snd (resample_body kern e input output)) ! i = path_entry p q i"
proof (cases "length (paths e) < length output")
  case True
  with i show ?thesis
    by (simp add: resample_body_accepted [OF c a])
next
  case False
  from c have "paths e ! i = map (path_entry p q) [0..<length (paths e)] ! i"
    by (simp add: constructed_def)
  also have "\<dots> = path_entry p q i"
    using False i by simp
  finally show ?thesis
    using False by (simp add: resample_body_accepted [OF c a])
qed

lemma construct_projr:
  "p \<noteq> 0 \<Longrightarrow> construct ops zero p q taps = Inr (projr (construct ops zero p q taps))"
  by (simp add: construct_cases)

lemma constructed_RealResampler:
  "p \<noteq> 0 \<Longrightarrow> constructed p q taps (projr (RealResampler ops el p q taps))"
  unfolding RealResampler_def
  by (rule construct_constructed [OF construct_projr])

lemma constructed_ComplexResampler:
  "p \<noteq> 0 \<Longrightarrow> constructed p q taps (projr (ComplexResampler ops el p q taps))"
  unfolding ComplexResampler_def
  by (rule construct_constructed [OF construct_projr])

lemma accepts_constructed:
  assumes "constructed p q taps e" and "q \<noteq> 0"
    and "isz mod unat q = 0" and "osz mod unat p = 0" and "isz div unat q = osz div unat p"
    and "unat (taps - 1) \<le> isz"
  shows "accepts e isz osz"
  using assms by (simp add: accepts_def constructed_def)

text \<open>
  The ratio 192000/44100 with 128 taps and one block of 44100 input samples:
  \<open>44100 * 97392\<close> is \<open>4294987200\<close>, above \<open>2^32 = 4294967296\<close>.
\<close>

lemma accepts_192000:
  assumes "constructed 192000 44100 128 e"
  shows "accepts e 44100 192000"
  by (rule accepts_constructed [OF assms]) simp_all

lemma path_entry_97392: "path_entry 192000 44100 97392 = (0, 19904)"
  by (simp add: path_entry_def)

text \<open>
  The same call, for any input of 44100 samples: it succeeds, and its output sample
  97392 is computed from partition 19904 and the window at offset 0 of the extended
  buffer, not from partition 139200 and the window at offset 22369.
\<close>

lemma resample_192000:
  assumes c: "constructed 192000 44100 128 e"
    and "length input = 44100" and "length output = 192000"
  shows "\<exists>out. fst (resample_body kern e input output) = Inr out
           \<and> out ! 97392 = kern (partitions e ! 19904) (take 128 (history e @ input))"
proof -
  from accepts_192000 [OF c] assms(2,3)
  have a: "accepts e (length input) (length output)" by simp
  from assms(2) have "length input \<le> 2147483648" and "unat (192000 :: unsigned) \<le> 2147483648"
    by simp_all
  from resample_body_succeeds [OF c a this, of kern]
  obtain out where out: "fst (resample_body kern e input output) = Inr out" ..
  from assms(3) have "97392 < length output" by simp
  from resample_body_output(2) [OF c out this]
  have "out ! 97392 = kern (partitions e ! 19904) (take 128 (history e @ input))"
    by (simp add: path_entry_97392)
  with out show ?thesis by blast
qed

text \<open>
  C3. The engine constructed with the ratio 192000/44100 and 128 taps is called with
  44100 input samples and 192000 output samples. The path table grows to 192000
  entries, and its entry at index 97392 is \<open>(0, 19904)\<close>: \<open>Q * i\<close> has wrapped modulo
  \<open>2^32\<close>. The claim's pair \<open>(floor(Q*i / P), (Q*i) mod P)\<close> is \<open>(22369, 139200)\<close>.
\<close>

theorem C3_path_entry_wraps:
  "paths (snd (RealResampler_resample exact_dbl f64_elem
      (projr (RealResampler exact_dbl f64_elem 192000 44100 128))
      (replicate 44100 0) (replicate 192000 0))) ! 97392 = (0, 19904)
   \<and> (44100 * 97392 div 192000, 44100 * 97392 mod 192000) = (22369 :: nat, 139200 :: nat)"
proof -
  let ?e = "projr (RealResampler exact_dbl f64_elem 192000 44100 128)"
  have c: "constructed 192000 44100 128 ?e"
    by (rule constructed_RealResampler) simp
  from accepts_192000 [OF c]
  have a: "accepts ?e (length (replicate 44100 (0 :: real))) (length (replicate 192000 (0 :: real)))"
    by simp
  have "97392 < length (replicate 192000 (0 :: real))" by simp
  from resample_body_paths [OF c a this, of "real_sample exact_dbl f64_elem"]
  show ?thesis
    by (simp add: RealResampler_resample_def path_entry_97392)
qed

section \<open>Construction without validation\<close>

lemma resample_body_Q_zero:
  "rs_Q e = 0 \<Longrightarrow> fst (resample_body kern e input output) = Inl DivisionByZero"
  by (simp add: resample_body_def)

lemma construct_rs_Q:
  "p \<noteq> 0 \<Longrightarrow> rs_Q (projr (construct ops zero p q taps)) = q"
  by (simp add: construct_cases)

text \<open>
  C8, as the code has it. The constructors check nothing. With \<open>P = 0\<close> the first
  path entry divides by zero, so no engine results. With \<open>P\<close> positive an engine results
  whatever \<open>Q\<close> and \<open>taps\<close> are, zero included; on an engine with \<open>Q = 0\<close> every call of
  \<open>resample\<close> divides by zero in its size check.
\<close>

theorem C8_constructor_checks_nothing:
  "RealResampler ops el 0 q taps = Inl DivisionByZero
   \<and> ComplexResampler ops el 0 q taps = Inl DivisionByZero
   \<and> (p \<noteq> 0 \<longrightarrow>
        RealResampler ops el p q taps = Inr (projr (RealResampler ops el p q taps))
        \<and> ComplexResampler ops el p q taps = Inr (projr (ComplexResampler ops el p q taps))
        \<and> fst (RealResampler_resample ops el (projr (RealResampler ops el p 0 taps))
              input output) = Inl DivisionByZero
        \<and> fst (ComplexResampler_resample ops el (projr (ComplexResampler ops el p 0 taps))
              cinput coutput) = Inl DivisionByZero)"
proof -
  have z: "RealResampler ops el 0 q taps = Inl DivisionByZero"
    "ComplexResampler ops el 0 q taps = Inl DivisionByZero"
    by (simp_all add: RealResampler_def ComplexResampler_def construct_cases)
  have nz: "RealResampler ops el p q taps = Inr (projr (RealResampler ops el p q taps))
        \<and> ComplexResampler ops el p q taps = Inr (projr (ComplexResampler ops el p q taps))
        \<and> fst (RealResampler_resample ops el (projr (RealResampler ops el p 0 taps))
              input output) = Inl DivisionByZero
        \<and> fst (ComplexResampler_resample ops el (projr (ComplexResampler ops el p 0 taps))
              cinput coutput) = Inl DivisionByZero"
    if p: "p \<noteq> 0"
    unfolding RealResampler_def ComplexResampler_def RealResampler_resample_def
      ComplexResampler_resample_def
    using construct_projr [OF p] resample_body_Q_zero construct_rs_Q [OF p]
    by metis
  from z nz show ?thesis by blast
qed

theorem C8_constructor_checks_nothing_witness:
  "(1 :: unsigned) \<noteq> 0
   \<and> RealResampler exact_dbl f64_elem 0 7 3 = Inl DivisionByZero
   \<and> ComplexResampler exact_dbl f64_elem 0 7 3 = Inl DivisionByZero
   \<and> RealResampler exact_dbl f64_elem 1 7 3 = Inr (projr (RealResampler exact_dbl f64_elem 1 7 3))
   \<and> ComplexResampler exact_dbl f64_elem 1 7 3
       = Inr (projr (ComplexResampler exact_dbl f64_elem 1 7 3))
   \<and> fst (RealResampler_resample exact_dbl f64_elem (projr (RealResampler exact_dbl f64_elem 1 0 3))
         [1, 2] [0, 0]) = Inl DivisionByZero
   \<and> fst (ComplexResampler_resample exact_dbl f64_elem
         (projr (ComplexResampler exact_dbl f64_elem 1 0 3)) [(1, 2)] [(0, 0)])
       = Inl DivisionByZero"
proof -
  have one: "(1 :: unsigned) \<noteq> 0" by simp
  from one C8_constructor_checks_nothing [of exact_dbl f64_elem 7 3 1 "[1, 2]" "[0, 0]"
      "[(1, 2)]" "[(0, 0)]"]
  show ?thesis by blast
qed

text \<open>
  C8 as stated fails: construction with \<open>Q = 0\<close>, and construction with \<open>taps = 0\<close>,
  return an engine and no error. The engine with \<open>taps = 0\<close> has a history of
  \<open>2^32 - 1\<close> samples, the wrapped \<open>taps-1\<close>.
\<close>

theorem C8_zero_Q_or_taps_constructs:
  "\<not> isl (RealResampler exact_dbl f64_elem 1 0 1)
   \<and> \<not> isl (ComplexResampler exact_dbl f64_elem 1 0 1)
   \<and> \<not> isl (RealResampler exact_dbl f64_elem 1 1 0)
   \<and> \<not> isl (ComplexResampler exact_dbl f64_elem 1 1 0)
   \<and> length (history (projr (RealResampler exact_dbl f64_elem 1 1 0))) = 4294967295"
  by (simp add: RealResampler_def ComplexResampler_def construct_cases unsigned_minus_1_eq_mask
      mask_eq_exp_minus_1)

section \<open>A read before the extended buffer\<close>

lemma path_entry_32768: "path_entry 1 65536 32768 = (- 2147483648, 0)"
  by (simp add: path_entry_def)

text \<open>
  C9. The real engine constructed with \<open>P = 1\<close>, \<open>Q = 65536\<close> and 128 taps is called
  with \<open>2^31 + 65536\<close> input samples and 32769 output samples. The sizes pass the
  check. The path entry of output index 32768 has the offset \<open>Q * i = 2^31\<close>, stored in an
  \<open>int\<close> as \<open>-2^31\<close>, and \<open>x.begin() + pi->first\<close> lies before the extended buffer.
\<close>

theorem C9_offset_stored_negative:
  "accepts (projr (RealResampler exact_dbl f64_elem 1 65536 128)) 2147549184 32769
   \<and> path_entry 1 65536 32768 = (- 2147483648, 0)
   \<and> fst (RealResampler_resample exact_dbl f64_elem
         (projr (RealResampler exact_dbl f64_elem 1 65536 128))
         (replicate 2147549184 0) (replicate 32769 0)) = Inl OutOfBounds"
proof -
  let ?e = "projr (RealResampler exact_dbl f64_elem 1 65536 128)"
  have c: "constructed 1 65536 128 ?e"
    by (rule constructed_RealResampler) simp
  have a: "accepts ?e 2147549184 32769"
    by (rule accepts_constructed [OF c]) simp_all
  then have a': "accepts ?e (length (replicate 2147549184 (0 :: real)))
      (length (replicate 32769 (0 :: real)))"
    by simp
  have i: "32768 < length (replicate 32769 (0 :: real))" by simp
  have "fst (path_entry 1 65536 32768) < 0 \<or> snd (path_entry 1 65536 32768) < 0"
    by (simp add: path_entry_32768)
  from resample_body_out_of_bounds [OF c a' i this, of "real_sample exact_dbl f64_elem"]
    a path_entry_32768
  show ?thesis
    by (simp add: RealResampler_resample_def)
qed

section \<open>The coefficients computed by init\<close>

lemma proto_loop_fst:
  "fst (proto_loop ops n c k i s) =
     map (\<lambda>m. proto_sample ops n c (((\<lambda>v. d_add ops v (d_lit ops 1)) ^^ m) i)) [0..<k]"
proof (induction k arbitrary: i s)
  case 0
  show ?case by simp
next
  case (Suc k)
  have "map (\<lambda>m. proto_sample ops n c (((\<lambda>v. d_add ops v (d_lit ops 1)) ^^ m) i)) [0..<Suc k]
      = proto_sample ops n c i
        # map (\<lambda>m. proto_sample ops n c
              (((\<lambda>v. d_add ops v (d_lit ops 1)) ^^ m) (d_add ops i (d_lit ops 1)))) [0..<k]"
    by (simp only: map_upt_Suc funpow_Suc_right funpow_0 o_apply)
  with Suc.IH show ?case
    by (simp add: Let_def)
qed

lemma proto_loop_snd:
  "snd (proto_loop ops n c k i s) = foldl (d_add ops) s (fst (proto_loop ops n c k i s))"
  by (induction k arbitrary: i s) (simp_all add: Let_def)

lemma proto_sample_spec: "proto_sample ops n c (counter ops i) = spec_prototype ops n c i"
  by (simp add: proto_sample_def spec_prototype_def sinc_def window_def window_arg_def Let_def)

lemma proto_loop_spec:
  "proto_loop ops n c n (d_lit ops 0) (d_lit ops 0) =
     (map (spec_prototype ops n c) [0..<n],
      foldl (d_add ops) (d_lit ops 0) (map (spec_prototype ops n c) [0..<n]))"
proof -
  have "fst (proto_loop ops n c n (d_lit ops 0) (d_lit ops 0))
      = map (spec_prototype ops n c) [0..<n]"
    unfolding proto_loop_fst
    by (simp add: counter_def [symmetric] proto_sample_spec)
  then show ?thesis
    by (simp add: prod_eq_iff proto_loop_snd)
qed

text \<open>The index \<open>j * P + p\<close> wraps only for a prototype of more than \<open>2^32\<close> samples.\<close>

lemma flat_index_exact:
  assumes "unat p * unat taps \<le> 4294967296" and "j < unat taps" and "k < unat p"
  shows "flat_index p j k = j * unat p + k"
proof -
  from assms(2,3) have "j * unat p + k < Suc j * unat p" by simp
  also from assms(2) have "\<dots> \<le> unat taps * unat p"
    by (intro mult_le_mono1) simp
  finally have lt: "j * unat p + k < 4294967296"
    using assms(1) by (simp add: mult.commute)
  have "flat_index p j k = (j * unat p + k) mod 4294967296"
    by (simp add: flat_index_def unat_word_ariths unat_of_nat mod_simps)
  with lt show ?thesis by simp
qed

lemma flat_index_bound:
  assumes "j < unat taps" and "k < unat p"
  shows "flat_index p j k < unat p * unat taps"
proof (cases "unat p * unat taps \<le> 4294967296")
  case True
  from assms have "j * unat p + k < Suc j * unat p" by simp
  also from assms(1) have "\<dots> \<le> unat taps * unat p"
    by (intro mult_le_mono1) simp
  finally show ?thesis
    using flat_index_exact [OF True assms] by (simp add: mult.commute)
next
  case False
  have "flat_index p j k < 2 ^ LENGTH(32)"
    unfolding flat_index_def by (rule unsigned_less)
  with False show ?thesis by simp
qed

text \<open>Each coefficient, from the prototype sample that the code reads for it.\<close>

lemma init_nth:
  assumes k: "k < unat p" and j: "j < unat taps"
  shows "init ops p taps c ! k ! j =
     d_mul ops
       (spec_prototype ops (unat p * unat taps) c (flat_index p (unat taps - 1 - j) k))
       (spec_beta ops (unat p) (unat p * unat taps) c)"
proof -
  let ?n = "unat p * unat taps"
  let ?proto = "map (spec_prototype ops ?n c) [0..<?n]"
  let ?row = "map (\<lambda>j. d_mul ops (?proto ! flat_index p j k) (spec_beta ops (unat p) ?n c))
                [0..<unat taps]"
  from j have j': "unat taps - 1 - j < unat taps" by simp
  have "init ops p taps c ! k = rev ?row"
    using k by (simp add: init_def Let_def proto_loop_spec spec_beta_def)
  then have "init ops p taps c ! k ! j = rev ?row ! j" by simp
  also have "\<dots> = ?row ! (unat taps - 1 - j)"
    using j by (simp add: rev_nth)
  also have "\<dots> = d_mul ops (?proto ! flat_index p (unat taps - 1 - j) k)
                      (spec_beta ops (unat p) ?n c)"
    using j' by simp
  also have "?proto ! flat_index p (unat taps - 1 - j) k
      = spec_prototype ops ?n c (flat_index p (unat taps - 1 - j) k)"
    using flat_index_bound [OF j' k] by simp
  finally show ?thesis .
qed

lemma construct_partitions:
  "construct ops zero p q taps = Inr e \<Longrightarrow>
     partitions e = init ops p taps (d_of_nat ops (max (unat p) (unat q)))"
  by (auto simp: construct_cases word_less_nat_alt max_def split: if_splits)

section \<open>Exact arithmetic\<close>

lemma exact_dbl_simps:
  "d_lit exact_dbl r = r" "d_of_nat exact_dbl n = real n" "m_pi exact_dbl = pi"
  "d_add exact_dbl a b = a + b" "d_sub exact_dbl a b = a - b"
  "d_mul exact_dbl a b = a * b" "d_div exact_dbl a b = a / b"
  "d_less exact_dbl a b \<longleftrightarrow> a < b" "d_eq exact_dbl a b \<longleftrightarrow> a = b"
  "d_sin exact_dbl a = sin a" "d_cos exact_dbl a = cos a"
  by (simp_all add: exact_dbl_def)

lemma counter_exact: "counter exact_dbl m = real m"
  by (induction m) (simp_all add: counter_def exact_dbl_simps)

text \<open>The prototype for \<open>P = 2\<close>, \<open>Q = 1\<close> and one tap, in exact arithmetic.\<close>

lemma spec_prototype_2_0: "spec_prototype exact_dbl 2 2 0 = 3 / (25000 * pi)"
proof -
  have "sin (pi * (- 1 / 2)) = - 1"
    using sin_minus [of "pi / 2"] by simp
  then show ?thesis
    by (simp add: spec_prototype_def Let_def exact_dbl_simps counter_exact)
qed

lemma spec_prototype_2_1: "spec_prototype exact_dbl 2 2 (Suc 0) = 1"
proof -
  have "cos (3 * pi) = - 1"
    using cos_periodic [of pi] by (simp add: algebra_simps)
  then show ?thesis
    by (simp add: spec_prototype_def Let_def exact_dbl_simps counter_exact)
qed

lemma spec_beta_2: "spec_beta exact_dbl 2 2 2 = 2 / (3 / (25000 * pi) + 1)"
proof -
  have "[0..<2] = [0, Suc 0]" by (simp add: upt_rec)
  then show ?thesis
    using spec_prototype_2_0 spec_prototype_2_1
    by (simp add: spec_beta_def exact_dbl_simps)
qed

lemma spec_beta_2_bounds: "1 < spec_beta exact_dbl 2 2 2" "spec_beta exact_dbl 2 2 2 < 2"
proof -
  have "0 < 3 / (25000 * pi)" by simp
  moreover have "3 / (25000 * pi) < 1"
    using pi_ge_two by (simp add: field_simps)
  ultimately show "1 < spec_beta exact_dbl 2 2 2" "spec_beta exact_dbl 2 2 2 < 2"
    unfolding spec_beta_2 by (simp_all add: field_simps)
qed



section \<open>The output samples\<close>

lemma foldl_complex_components:
  "foldl (\<lambda>accum (c, x).
       (d_add ops (fst accum) (d_mul ops c (to_double el (fst x))),
        d_add ops (snd accum) (d_mul ops c (to_double el (snd x))))) (a, b) (zip h w)
   = (foldl (\<lambda>accum (c, x). d_add ops accum (d_mul ops c (to_double el x))) a
        (zip h (map fst w)),
      foldl (\<lambda>accum (c, x). d_add ops accum (d_mul ops c (to_double el x))) b
        (zip h (map snd w)))"
proof (induction h arbitrary: w a b)
  case Nil
  show ?case by simp
next
  case (Cons c h)
  show ?case
  proof (cases w)
    case Nil
    then show ?thesis by simp
  next
    case (Cons x xs)
    with Cons.IH show ?thesis by simp
  qed
qed

text \<open>The two components of the complex accumulator are two real dot products.\<close>

lemma complex_accum_components:
  "complex_accum ops el h w = (real_accum ops el h (map fst w), real_accum ops el h (map snd w))"
  unfolding complex_accum_def real_accum_def by (rule foldl_complex_components)

lemma resample_body_exact:
  assumes c: "constructed p q taps e"
    and ok: "fst (resample_body kern e input output) = Inr out"
    and i: "i < length output" and small: "unat q * i < 4294967296"
  shows "out ! i = kern (partitions e ! (unat q * i mod unat p))
                     (take (unat taps) (drop (unat q * i div unat p) (history e @ input)))"
    and "unat q * i div unat p + unat taps \<le> length (history e @ input)"
proof -
  note a = resample_body_Inr_accepts [OF ok]
  from ok resample_body_accepted [OF c a, of kern]
  have l: "output_loop (output_sample kern (partitions e) (history e @ input))
             (map (path_entry p q) [0..<length output]) = Inr out"
    by simp
  from output_loop_Inr_nth [OF l] i
  have s: "output_sample kern (partitions e) (history e @ input) (path_entry p q i)
             = Inr (out ! i)"
    by simp
  note b = output_sample_Inr [OF s]
  from b have "0 \<le> fst (path_entry p q i)" and "0 \<le> snd (path_entry p q i)"
    by simp_all
  note pe = path_entry_exact32 [OF small this]
  from resample_body_output(2) [OF c ok i] pe
  show "out ! i = kern (partitions e ! (unat q * i mod unat p))
                     (take (unat taps) (drop (unat q * i div unat p) (history e @ input)))"
    by simp
  from c b have "length (partitions e ! nat (snd (path_entry p q i))) = unat taps"
    by (simp add: constructed_def list_all_length)
  with b pe show "unat q * i div unat p + unat taps \<le> length (history e @ input)"
    by simp
qed

text \<open>
  For every successful call on a constructed engine and every output index \<open>i\<close> with
  \<open>Q * i < 2^32\<close>: the window of \<open>taps\<close> samples at offset \<open>floor(Q*i/P)\<close> lies in the
  extended buffer (history, then input), and \<open>output[i]\<close> is the dot product of
  \<open>partitions[(Q*i) mod P]\<close> with that window, accumulated in \<open>double\<close> from \<open>0.0\<close>, then
  clamped for an integer element type and converted to the element type. The real and
  the imaginary part of a complex sample are two such dot products with the same
  coefficients.
\<close>

lemma output_without_wrap:
  assumes "constructed p q taps e" and "constructed p q taps ce"
    and "unat q * i < 4294967296"
  shows
    "(fst (RealResampler_resample ops el e input output) = Inr out \<and> i < length output \<longrightarrow>
        unat q * i div unat p + unat taps \<le> length (history e @ input)
        \<and> out ! i =
            of_double el (saturate ops el
              (real_accum ops el (partitions e ! (unat q * i mod unat p))
                 (take (unat taps) (drop (unat q * i div unat p) (history e @ input))))))
     \<and> (fst (ComplexResampler_resample ops el ce cinput coutput) = Inr cout
          \<and> i < length coutput \<longrightarrow>
        unat q * i div unat p + unat taps \<le> length (history ce @ cinput)
        \<and> cout ! i =
            (of_double el (saturate ops el
               (real_accum ops el (partitions ce ! (unat q * i mod unat p))
                  (map fst (take (unat taps)
                     (drop (unat q * i div unat p) (history ce @ cinput)))))),
             of_double el (saturate ops el
               (real_accum ops el (partitions ce ! (unat q * i mod unat p))
                  (map snd (take (unat taps)
                     (drop (unat q * i div unat p) (history ce @ cinput))))))))"
proof -
  have r: "unat q * i div unat p + unat taps \<le> length (history e @ input)
        \<and> out ! i =
            of_double el (saturate ops el
              (real_accum ops el (partitions e ! (unat q * i mod unat p))
                 (take (unat taps) (drop (unat q * i div unat p) (history e @ input)))))"
    if "fst (RealResampler_resample ops el e input output) = Inr out" and "i < length output"
    using resample_body_exact [OF assms(1) _ that(2) assms(3), of "real_sample ops el" input out]
      that(1)
    by (simp add: RealResampler_resample_def real_sample_def)
  have c: "unat q * i div unat p + unat taps \<le> length (history ce @ cinput)
        \<and> cout ! i =
            (of_double el (saturate ops el
               (real_accum ops el (partitions ce ! (unat q * i mod unat p))
                  (map fst (take (unat taps)
                     (drop (unat q * i div unat p) (history ce @ cinput)))))),
             of_double el (saturate ops el
               (real_accum ops el (partitions ce ! (unat q * i mod unat p))
                  (map snd (take (unat taps)
                     (drop (unat q * i div unat p) (history ce @ cinput)))))))"
    if "fst (ComplexResampler_resample ops el ce cinput coutput) = Inr cout"
      and "i < length coutput"
    using resample_body_exact [OF assms(2) _ that(2) assms(3), of "complex_sample ops el"
        cinput cout]
      that(1)
    by (simp add: ComplexResampler_resample_def complex_sample_def complex_accum_components
        Let_def)
  from r c show ?thesis by blast
qed

section \<open>Integer engines in exact arithmetic\<close>

lemma singleton_nth: "length xs = Suc 0 \<Longrightarrow> xs = [xs ! 0]"
  by (cases xs) simp_all

text \<open>
  An engine \<open>RealResampler<T>(2, 1, 1)\<close> in exact arithmetic: its two partitions hold
  \<open>3 / (25000 \<pi>) * beta\<close> and \<open>beta\<close>, with \<open>beta = 2 / (3 / (25000 \<pi>) + 1)\<close>, about
  1.99992.
\<close>

lemma engine_2_1_1_partitions:
  "partitions (projr (RealResampler exact_dbl el 2 1 1))
     = [[3 / (25000 * pi) * spec_beta exact_dbl 2 2 2], [spec_beta exact_dbl 2 2 2]]"
proof -
  let ?e = "projr (RealResampler exact_dbl el 2 1 1)"
  have "construct exact_dbl (t_zero el) 2 1 1 = Inr ?e"
    unfolding RealResampler_def by (rule construct_projr) simp
  from construct_partitions [OF this]
  have parts: "partitions ?e = init exact_dbl 2 1 2"
    by (simp add: exact_dbl_simps)
  have f: "flat_index 2 0 0 = 0" "flat_index 2 0 (Suc 0) = Suc 0"
    by (simp_all add: flat_index_def)
  have n0: "init exact_dbl 2 1 2 ! 0 ! 0 = 3 / (25000 * pi) * spec_beta exact_dbl 2 2 2"
    using init_nth [of 0 2 0 1 exact_dbl 2]
    by (simp add: f exact_dbl_simps spec_prototype_2_0)
  have n1: "init exact_dbl 2 1 2 ! Suc 0 ! 0 = spec_beta exact_dbl 2 2 2"
    using init_nth [of "Suc 0" 2 0 1 exact_dbl 2]
    by (simp add: f exact_dbl_simps spec_prototype_2_1)
  have l: "length (init exact_dbl 2 1 2) = Suc (Suc 0)"
    by (simp add: length_init)
  have "list_all (\<lambda>h. length h = unat (1 :: unsigned)) (init exact_dbl 2 1 2)"
    by (rule list_all_init)
  with l have l0: "length (init exact_dbl 2 1 2 ! 0) = Suc 0"
    and l1: "length (init exact_dbl 2 1 2 ! Suc 0) = Suc 0"
    by (simp_all add: list_all_length)
  from singleton_nth [OF l0] n0
  have r0: "init exact_dbl 2 1 2 ! 0 = [3 / (25000 * pi) * spec_beta exact_dbl 2 2 2]" by simp
  from singleton_nth [OF l1] n1
  have r1: "init exact_dbl 2 1 2 ! Suc 0 = [spec_beta exact_dbl 2 2 2]" by simp
  have "init exact_dbl 2 1 2 = [init exact_dbl 2 1 2 ! 0, init exact_dbl 2 1 2 ! Suc 0]"
    using l by (cases "init exact_dbl 2 1 2" rule: list.exhaust)
      (auto simp: length_Suc_conv)
  with r0 r1 parts show ?thesis by simp
qed

lemma engine_2_1_1_history: "history (projr (RealResampler exact_dbl el 2 1 1)) = []"
  by (simp add: RealResampler_def construct_cases)

lemma s64_simps:
  "is_integral s64_elem"
  "to_double s64_elem (numeric_limits_min s64_elem) = - 9223372036854775808"
  "to_double s64_elem (numeric_limits_max s64_elem) = 9223372036854775808"
  "sint (numeric_limits_max s64_elem) = 9223372036854775807"
  "of_double s64_elem r = word_of_int (drop_fraction r)"
  by (simp_all add: s64_elem_def round_to_double_def Let_def)

text \<open>
  C5. \<open>RealResampler<long>(2, 1, 1)\<close> is called with the input \<open>[LONG_MAX]\<close>. The call
  succeeds. The accumulator of output index 1 is \<open>beta * 2^63\<close>, and the clamp leaves
  \<open>(double) LONG_MAX\<close>, which is \<open>2^63\<close>, one more than \<open>LONG_MAX\<close>. The conversion of
  \<open>2^63\<close> to \<open>long\<close> is outside the type; where it wraps, the sample written is
  \<open>LONG_MIN\<close>.
\<close>

theorem C5_long_clamp_exceeds_max:
  "\<not> isl (fst (RealResampler_resample exact_dbl s64_elem
        (projr (RealResampler exact_dbl s64_elem 2 1 1)) [numeric_limits_max s64_elem] [0, 0]))
   \<and> projr (fst (RealResampler_resample exact_dbl s64_elem
        (projr (RealResampler exact_dbl s64_elem 2 1 1)) [numeric_limits_max s64_elem] [0, 0])) ! 1
     = of_double s64_elem (saturate exact_dbl s64_elem
         (real_accum exact_dbl s64_elem
            (partitions (projr (RealResampler exact_dbl s64_elem 2 1 1)) ! 1)
            [numeric_limits_max s64_elem]))
   \<and> saturate exact_dbl s64_elem
         (real_accum exact_dbl s64_elem
            (partitions (projr (RealResampler exact_dbl s64_elem 2 1 1)) ! 1)
            [numeric_limits_max s64_elem])
       = 9223372036854775808
   \<and> real_of_int (sint (numeric_limits_max s64_elem)) < 9223372036854775808
   \<and> of_double s64_elem 9223372036854775808 = numeric_limits_min s64_elem"
proof -
  let ?e = "projr (RealResampler exact_dbl s64_elem 2 1 1)"
  let ?m = "numeric_limits_max s64_elem"
  let ?b = "spec_beta exact_dbl 2 2 2"
  note b = spec_beta_2_bounds
  have c: "constructed 2 1 1 ?e"
    by (rule constructed_RealResampler) simp
  have acc: "accepts ?e (length [?m]) (length [0 :: 64 word, 0])"
    by (rule accepts_constructed [OF c]) simp_all
  have "length [?m] \<le> 2147483648" and "unat (2 :: unsigned) \<le> 2147483648"
    by simp_all
  from resample_body_succeeds [OF c acc this, of "real_sample exact_dbl s64_elem"]
  obtain out where out: "fst (resample_body (real_sample exact_dbl s64_elem) ?e [?m] [0, 0])
      = Inr out" ..
  have pe: "path_entry 2 1 (Suc 0) = (0, 1)"
    by (simp add: path_entry_def)
  have "Suc 0 < length [0 :: 64 word, 0]" by simp
  from resample_body_output(2) [OF c out this]
  have o1: "out ! 1 = real_sample exact_dbl s64_elem (partitions ?e ! 1) [?m]"
    by (simp add: pe engine_2_1_1_history)
  have dot: "real_accum exact_dbl s64_elem (partitions ?e ! 1) [?m] = ?b * 9223372036854775808"
    by (simp add: engine_2_1_1_partitions real_accum_def s64_simps exact_dbl_simps)
  have big: "9223372036854775808 < ?b * 9223372036854775808"
    using b(1) by simp
  then have lo: "- 9223372036854775808 < ?b * 9223372036854775808" by linarith
  have sat: "saturate exact_dbl s64_elem (?b * 9223372036854775808) = 9223372036854775808"
    using big lo
    by (simp add: saturate_def std_min_def std_max_def s64_simps exact_dbl_simps)
  have wrap: "of_double s64_elem 9223372036854775808 = numeric_limits_min s64_elem"
    by (simp add: s64_elem_def drop_fraction_def)
  from out o1 dot sat wrap show ?thesis
    by (simp add: RealResampler_resample_def real_sample_def s64_simps)
qed

section \<open>One call or several\<close>

lemma accepted_sizes:
  assumes "accepts e isz osz"
  shows "isz * unat (rs_P e) = unat (rs_Q e) * osz"
proof -
  let ?k = "isz div unat (rs_Q e)"
  from assms have m: "isz mod unat (rs_Q e) = 0" "osz mod unat (rs_P e) = 0"
    and k: "osz div unat (rs_P e) = ?k"
    by (simp_all add: accepts_def)
  have "unat (rs_Q e) * ?k + isz mod unat (rs_Q e) = isz"
    by (rule mult_div_mod_eq)
  with m(1) have i: "isz = unat (rs_Q e) * ?k" by simp
  have "unat (rs_P e) * (osz div unat (rs_P e)) + osz mod unat (rs_P e) = osz"
    by (rule mult_div_mod_eq)
  with m(2) k have o: "osz = unat (rs_P e) * ?k" by simp
  have "isz * unat (rs_P e) = unat (rs_Q e) * ?k * unat (rs_P e)"
    using i by simp
  also have "\<dots> = unat (rs_Q e) * (unat (rs_P e) * ?k)"
    by (simp add: mult.assoc mult.commute)
  also have "\<dots> = unat (rs_Q e) * osz"
    using o by simp
  finally show ?thesis .
qed

text \<open>A call without overflow returns the samples of the specification.\<close>

lemma resample_body_spec:
  assumes c: "constructed p q taps e" and a: "accepts e (length input) (length output)"
    and small: "unat q * length output \<le> 4294967296"
    and i31: "length input \<le> 2147483648" and p31: "unat p \<le> 2147483648"
  shows "fst (resample_body kern e input output)
           = Inr (map (spec_sample kern e (unat taps) input) [0..<length output])"
proof -
  from c have P: "rs_P e = p" and Q: "rs_Q e = q"
    by (simp_all add: constructed_def)
  from a Q have q0: "0 < unat q"
    by (simp add: accepts_def unat_gt_0)
  from resample_body_succeeds [OF c a i31 p31, of kern]
  obtain out where out: "fst (resample_body kern e input output) = Inr out" ..
  have "out = map (spec_sample kern e (unat taps) input) [0..<length output]"
  proof (rule nth_equalityI)
    show "length out = length (map (spec_sample kern e (unat taps) input) [0..<length output])"
      using resample_body_output(1) [OF c out] by simp
  next
    fix i
    assume "i < length out"
    then have i: "i < length output"
      using resample_body_output(1) [OF c out] by simp
    then have "unat q * i < unat q * length output"
      using q0 by (rule mult_less_mono2)
    with small have "unat q * i < 4294967296" by linarith
    from resample_body_exact(1) [OF c out i this] i
    show "out ! i = map (spec_sample kern e (unat taps) input) [0..<length output] ! i"
      by (simp add: spec_sample_def P Q)
  qed
  with out show ?thesis by simp
qed

lemma take_drop_append_inside:
  "d + t \<le> length xs \<Longrightarrow> take t (drop d (xs @ ys)) = take t (drop d xs)"
  by simp

lemma drop_history_append:
  "length h \<le> length x1 \<Longrightarrow> drop (length x1) (h @ x1 @ x2) = drop (length x1 - length h) x1 @ x2"
  by simp

lemma map_upt_split:
  "map f [0..<n + m] = map f [0..<n] @ map (\<lambda>i. f (n + i)) [0..<m]"
  by (induction m) simp_all

lemma accepts_same:
  assumes "rs_P e1 = rs_P e" and "rs_Q e1 = rs_Q e" and "length (history e1) = length (history e)"
  shows "accepts e1 isz osz = accepts e isz osz"
  using assms by (simp add: accepts_def)

text \<open>
  Sample \<open>i\<close> of the first block does not look beyond that block, and sample \<open>n + i\<close>
  of the whole is sample \<open>i\<close> of the rest, taken with the history that the first call
  leaves.
\<close>

lemma spec_sample_first:
  assumes c: "constructed p q taps e" and a: "accepts e (length x1) n"
    and i: "i < n"
  shows "spec_sample kern e (unat taps) (x1 @ x2) i = spec_sample kern e (unat taps) x1 i"
proof -
  from c have P: "rs_P e = p" and Q: "rs_Q e = q" and p0: "0 < unat p"
    and hist: "length (history e) = unat (taps - 1)"
    by (simp_all add: constructed_def unat_gt_0)
  from a Q have q0: "0 < unat q"
    by (simp add: accepts_def unat_gt_0)
  have "unat q * i < unat q * n"
    using i q0 by (rule mult_less_mono2)
  also have "\<dots> = length x1 * unat p"
    using accepted_sizes [OF a] P Q by simp
  finally have d: "unat q * i div unat p < length x1"
    using p0 by (simp add: less_mult_imp_div_less)
  have "unat q * i div unat p + unat taps \<le> length (history e @ x1)"
  proof (cases "taps = 0")
    case True
    then show ?thesis using d by simp
  next
    case False
    then have "unat (taps - 1) = unat taps - 1" and "0 < unat taps"
      by (simp_all add: unat_taps_minus_1 unat_gt_0)
    then show ?thesis using d hist by simp
  qed
  then have "take (unat taps) (drop (unat q * i div unat p) ((history e @ x1) @ x2))
      = take (unat taps) (drop (unat q * i div unat p) (history e @ x1))"
    by (rule take_drop_append_inside)
  then show ?thesis
    unfolding spec_sample_def P Q append_assoc by (rule arg_cong)
qed

lemma spec_sample_rest:
  assumes c: "constructed p q taps e" and a: "accepts e (length x1) n"
    and e1: "partitions e1 = partitions e" "rs_P e1 = rs_P e" "rs_Q e1 = rs_Q e"
      "history e1 = drop (length x1 - length (history e)) x1"
  shows "spec_sample kern e (unat taps) (x1 @ x2) (n + i) = spec_sample kern e1 (unat taps) x2 i"
proof -
  from c have P: "rs_P e = p" and Q: "rs_Q e = q" and p0: "0 < unat p"
    by (simp_all add: constructed_def unat_gt_0)
  from a have hl: "length (history e) \<le> length x1"
    by (simp add: accepts_def)
  have s: "unat q * (n + i) = length x1 * unat p + unat q * i"
    using accepted_sizes [OF a] P Q by (simp add: algebra_simps)
  have dv: "unat q * (n + i) div unat p = length x1 + unat q * i div unat p"
    unfolding s using p0 by simp
  have md: "unat q * (n + i) mod unat p = unat q * i mod unat p"
    unfolding s by simp
  have "drop (length x1 + unat q * i div unat p) (history e @ x1 @ x2)
      = drop (unat q * i div unat p) (drop (length x1) (history e @ x1 @ x2))"
    by (simp only: drop_drop add.commute)
  also have "drop (length x1) (history e @ x1 @ x2) = history e1 @ x2"
    unfolding e1(4) using hl by (rule drop_history_append)
  finally have w: "drop (length x1 + unat q * i div unat p) (history e @ x1 @ x2)
      = drop (unat q * i div unat p) (history e1 @ x2)" .
  show ?thesis
    unfolding spec_sample_def e1(1,2,3) P Q dv md w ..
qed

lemma resample_blocks_spec:
  assumes "constructed p q taps e" and "accepts_all e bs"
    and "unat q * sum_list (map (\<lambda>b. length (snd b)) bs) \<le> 4294967296"
    and "length (concat (map fst bs)) \<le> 2147483648" and "unat p \<le> 2147483648"
  shows "fst (resample_blocks (resample_body kern) e bs)
           = Inr (map (spec_sample kern e (unat taps) (concat (map fst bs)))
                    [0..<sum_list (map (\<lambda>b. length (snd b)) bs)])"
  using assms
proof (induction bs arbitrary: e)
  case Nil
  show ?case by simp
next
  case (Cons b bs)
  let ?x1 = "fst b" and ?n = "length (snd b)"
  let ?x2 = "concat (map fst bs)" and ?m = "sum_list (map (\<lambda>b. length (snd b)) bs)"
  note c = Cons.prems(1)
  note p31 = Cons.prems(5)
  from Cons.prems(2) have a: "accepts e (length ?x1) ?n" and rest: "accepts_all e bs"
    by (simp_all add: accepts_all_def)
  from Cons.prems(3) have s1: "unat q * ?n \<le> 4294967296" and s2: "unat q * ?m \<le> 4294967296"
    by (simp_all add: algebra_simps)
  from Cons.prems(4) have i1: "length ?x1 \<le> 2147483648" and i2: "length ?x2 \<le> 2147483648"
    by simp_all
  note first = resample_body_spec [OF c a s1 i1 p31, of kern]
  obtain e1 where r: "resample_body kern e ?x1 (snd b)
      = (Inr (map (spec_sample kern e (unat taps) ?x1) [0..<?n]), e1)"
    using first by (cases "resample_body kern e ?x1 (snd b)") simp
  from resample_body_success_state [OF first]
  have e1: "partitions e1 = partitions e" "rs_P e1 = rs_P e" "rs_Q e1 = rs_Q e"
    "history e1 = drop (length ?x1 - length (history e)) ?x1"
    by (simp_all add: r)
  from resample_body_keeps [OF c, of kern ?x1 "snd b"]
  have c1: "constructed p q taps e1"
    by (simp add: r)
  from c c1 have hl: "length (history e1) = length (history e)"
    by (simp add: constructed_def)
  from e1 hl have same: "\<And>isz osz. accepts e1 isz osz = accepts e isz osz"
    by (intro accepts_same) simp_all
  from rest same have rest1: "accepts_all e1 bs"
    by (simp add: accepts_all_def)
  note ih = Cons.IH [OF c1 rest1 s2 i2 p31]
  obtain e2 where r': "resample_blocks (resample_body kern) e1 bs
      = (Inr (map (spec_sample kern e1 (unat taps) ?x2) [0..<?m]), e2)"
    using ih by (cases "resample_blocks (resample_body kern) e1 bs") simp
  have "map (spec_sample kern e (unat taps) (?x1 @ ?x2)) [0..<?n + ?m]
      = map (spec_sample kern e (unat taps) (?x1 @ ?x2)) [0..<?n]
        @ map (\<lambda>i. spec_sample kern e (unat taps) (?x1 @ ?x2) (?n + i)) [0..<?m]"
    by (rule map_upt_split)
  also have "map (spec_sample kern e (unat taps) (?x1 @ ?x2)) [0..<?n]
      = map (spec_sample kern e (unat taps) ?x1) [0..<?n]"
    by (rule map_cong [OF refl]) (simp add: spec_sample_first [OF c a])
  also have "map (\<lambda>i. spec_sample kern e (unat taps) (?x1 @ ?x2) (?n + i)) [0..<?m]
      = map (spec_sample kern e1 (unat taps) ?x2) [0..<?m]"
    by (rule map_cong [OF refl]) (rule spec_sample_rest [OF c a e1])
  finally have "map (spec_sample kern e (unat taps) (?x1 @ ?x2)) [0..<?n + ?m]
      = map (spec_sample kern e (unat taps) ?x1) [0..<?n]
        @ map (spec_sample kern e1 (unat taps) ?x2) [0..<?m]" .
  moreover have "fst (resample_blocks (resample_body kern) e (b # bs))
      = Inr (map (spec_sample kern e (unat taps) ?x1) [0..<?n]
             @ map (spec_sample kern e1 (unat taps) ?x2) [0..<?m])"
    by (simp add: r r')
  ultimately show ?case by simp
qed

lemma accepts_all_whole:
  assumes "accepts_all e bs" and "bs \<noteq> []"
  shows "accepts e (length (concat (map fst bs))) (sum_list (map (\<lambda>b. length (snd b)) bs))"
  using assms
proof (induction bs)
  case Nil
  then show ?case by simp
next
  case (Cons b bs)
  from Cons.prems(1) have a: "accepts e (length (fst b)) (length (snd b))"
    and rest: "accepts_all e bs"
    by (simp_all add: accepts_all_def)
  show ?case
  proof (cases "bs = []")
    case True
    with a show ?thesis by simp
  next
    case False
    from Cons.IH [OF rest False] a show ?thesis
      by (auto simp: accepts_def div_add)
  qed
qed

lemma blocks_same_output:
  assumes c: "constructed p q taps e" and ne: "bs \<noteq> []" and a: "accepts_all e bs"
    and n: "length output = sum_list (map (\<lambda>b. length (snd b)) bs)"
    and small: "unat q * length output \<le> 4294967296"
    and i31: "length (concat (map fst bs)) \<le> 2147483648" and p31: "unat p \<le> 2147483648"
  shows "fst (resample_body kern e (concat (map fst bs)) output)
           = fst (resample_blocks (resample_body kern) e bs)
         \<and> \<not> isl (fst (resample_blocks (resample_body kern) e bs))"
proof -
  from accepts_all_whole [OF a ne] n
  have w: "accepts e (length (concat (map fst bs))) (length output)" by simp
  from small n have s: "unat q * sum_list (map (\<lambda>b. length (snd b)) bs) \<le> 4294967296"
    by simp
  from resample_body_spec [OF c w small i31 p31, of kern]
    resample_blocks_spec [OF c a s i31 p31, of kern] n
  show ?thesis by simp
qed

text \<open>
  A sequence is split into one or more blocks, each with its output vector, and the
  size check accepts every block: aligned to \<open>Q\<close> and \<open>P\<close>, and at least \<open>taps-1\<close> samples
  long. With at most \<open>2^31\<close> input samples, at most \<open>2^31\<close> partitions, and \<open>Q\<close> times the
  number of output samples of the whole at most \<open>2^32\<close>, the one call on the whole
  sequence and the successive calls on the blocks, from the same engine state, succeed
  with the same output: the same operations of \<open>double\<close> on the same operands, whatever
  the arithmetic is.
\<close>

lemma blocks_without_wrap:
  assumes "constructed p q taps e" and "constructed p q taps ce"
    and "bs \<noteq> []" and "accepts_all e bs"
    and "length output = sum_list (map (\<lambda>b. length (snd b)) bs)"
    and "unat q * length output \<le> 4294967296"
    and "length (concat (map fst bs)) \<le> 2147483648"
    and "cbs \<noteq> []" and "accepts_all ce cbs"
    and "length coutput = sum_list (map (\<lambda>b. length (snd b)) cbs)"
    and "unat q * length coutput \<le> 4294967296"
    and "length (concat (map fst cbs)) \<le> 2147483648"
    and "unat p \<le> 2147483648"
  shows
    "fst (RealResampler_resample ops el e (concat (map fst bs)) output)
       = fst (resample_blocks (RealResampler_resample ops el) e bs)
     \<and> \<not> isl (fst (resample_blocks (RealResampler_resample ops el) e bs))
     \<and> fst (ComplexResampler_resample ops el ce (concat (map fst cbs)) coutput)
       = fst (resample_blocks (ComplexResampler_resample ops el) ce cbs)
     \<and> \<not> isl (fst (resample_blocks (ComplexResampler_resample ops el) ce cbs))"
  unfolding RealResampler_resample_def ComplexResampler_resample_def
  using blocks_same_output [OF assms(1,3,4,5,6,7,13), of "real_sample ops el"]
    blocks_same_output [OF assms(2,8,9,10,11,12,13), of "complex_sample ops el"]
  by simp

section \<open>A product \<open>Q * i\<close> that wraps within a call\<close>

text \<open>
  In exact arithmetic the window is positive: with \<open>c\<close> the cosine of \<open>2\<pi>i/N\<close>, the
  other two cosines are \<open>2c\<^sup>2 - 1\<close> and \<open>4c\<^sup>3 - 3c\<close>, and the polynomial is \<open>0.00006\<close> at
  \<open>c = 1\<close> and larger below.
\<close>

lemma window_polynomial_positive:
  fixes c :: real
  assumes "c \<le> 1"
  shows "0 < 0.35875 - 0.48829 * c + 0.14128 * (2 * c\<^sup>2 - 1) - 0.01168 * (4 * c ^ 3 - 3 * c)"
proof -
  define d where "d = 1 - c"
  then have c: "c = 1 - d" by simp
  from assms have d: "0 \<le> d" by (simp add: d_def)
  have "0.35875 - 0.48829 * c + 0.14128 * (2 * c\<^sup>2 - 1) - 0.01168 * (4 * c ^ 3 - 3 * c)
      = 0.00006 + d * (0.02829 + 0.1424 * d + 0.04672 * d\<^sup>2)"
    unfolding c by (simp add: field_simps power2_eq_square power3_eq_cube)
  moreover from d have "0 \<le> d * (0.02829 + 0.1424 * d + 0.04672 * d\<^sup>2)"
    by (intro mult_nonneg_nonneg add_nonneg_nonneg) simp_all
  ultimately show ?thesis by simp
qed

lemma sinc_positive:
  fixes x :: real
  assumes "\<bar>x\<bar> < 1"
  shows "0 < (if x = 0 then 1 else sin (pi * x) / (pi * x))"
proof (cases "x = 0")
  case True
  then show ?thesis by simp
next
  case False
  have pos: "0 < sin (pi * y) / (pi * y)" if "0 < y" and "y < 1" for y :: real
  proof -
    from that have "0 < pi * y" and "pi * y < pi" by simp_all
    then have "0 < sin (pi * y)" by (rule sin_gt_zero)
    with \<open>0 < pi * y\<close> show ?thesis by simp
  qed
  show ?thesis
  proof (cases "0 < x")
    case True
    with assms pos [of x] False show ?thesis by simp
  next
    case neg: False
    with False assms have "0 < - x" and "- x < 1" by simp_all
    from pos [OF this] have "0 < sin (pi * x) / (pi * x)" by simp
    with False show ?thesis by simp
  qed
qed

text \<open>
  A prototype whose cutoff is at least its length \<open>N\<close> stays within the main lobe of
  \<open>sinc\<close>: all its samples are positive, and so is \<open>beta\<close>.
\<close>

lemma spec_prototype_positive:
  assumes "i < n" and "real n \<le> c"
  shows "0 < spec_prototype exact_dbl n c i"
proof -
  let ?a = "2 * pi * real i / real n"
  let ?x = "(real i - real n / 2) / c"
  from assms have c: "0 < c" by simp
  from assms have "\<bar>real i - real n / 2\<bar> < c" by (simp add: abs_if) 
  with c have "\<bar>?x\<bar> < 1" by simp
  from sinc_positive [OF this]
  have s: "0 < (if ?x = 0 then 1 else sin (pi * ?x) / (pi * ?x))" .
  have a4: "4 * pi * real i / real n = 2 * ?a" and a6: "6 * pi * real i / real n = 3 * ?a"
    by simp_all
  have c4: "cos (4 * pi * real i / real n) = 2 * (cos ?a)\<^sup>2 - 1"
    unfolding a4 by (rule cos_double_cos)
  have c6: "cos (6 * pi * real i / real n) = 4 * cos ?a ^ 3 - 3 * cos ?a"
    unfolding a6 by (rule cos_treble_cos)
  have w: "0 < 0.35875 - 0.48829 * cos ?a + 0.14128 * cos (4 * pi * real i / real n)
             - 0.01168 * cos (6 * pi * real i / real n)"
    unfolding c4 c6 by (rule window_polynomial_positive) simp
  have "spec_prototype exact_dbl n c i
      = (if ?x = 0 then 1 else sin (pi * ?x) / (pi * ?x))
        * (0.35875 - 0.48829 * cos ?a + 0.14128 * cos (4 * pi * real i / real n)
             - 0.01168 * cos (6 * pi * real i / real n))"
    by (simp only: spec_prototype_def Let_def exact_dbl_simps counter_exact)
  with s w show ?thesis by (simp only: mult_pos_pos)
qed

lemma foldl_add_positive:
  fixes s :: real
  assumes "\<And>x. x \<in> set xs \<Longrightarrow> 0 < x" and "xs \<noteq> []" and "0 \<le> s"
  shows "0 < foldl (+) s xs"
  using assms
proof (induction xs arbitrary: s)
  case Nil
  then show ?case by simp
next
  case (Cons x xs)
  from Cons.prems(1) [of x] have x: "0 < x" by simp
  show ?case
  proof (cases "xs = []")
    case True
    with x Cons.prems(3) show ?thesis by simp
  next
    case False
    have "0 < foldl (+) (s + x) xs"
    proof (rule Cons.IH [OF _ False])
      show "0 \<le> s + x" using x Cons.prems(3) by simp
    qed (use Cons.prems(1) in simp)
    then show ?thesis by simp
  qed
qed

lemma spec_beta_positive:
  assumes "0 < p" and "0 < n" and "real n \<le> c"
  shows "0 < spec_beta exact_dbl p n c"
proof -
  have e: "d_add exact_dbl = (+)"
    by (simp add: exact_dbl_def)
  have "0 < foldl (+) 0 (map (spec_prototype exact_dbl n c) [0..<n])"
  proof (rule foldl_add_positive)
    fix x
    assume "x \<in> set (map (spec_prototype exact_dbl n c) [0..<n])"
    then obtain i where "i < n" and "x = spec_prototype exact_dbl n c i" by auto
    with spec_prototype_positive [OF _ assms(3)] show "0 < x" by simp
  next
    from assms(2) show "map (spec_prototype exact_dbl n c) [0..<n] \<noteq> []" by simp
  qed simp
  with assms(1) show ?thesis
    by (simp add: spec_beta_def e exact_dbl_simps)
qed

text \<open>The coefficients of an engine with one tap and \<open>Q \<le> P\<close> are positive.\<close>

lemma init_one_tap_positive:
  assumes k: "k < unat p" and m: "unat p \<le> m"
  shows "0 < init exact_dbl p 1 (real m) ! k ! 0"
proof -
  have "unat p < 2 ^ LENGTH(32)" by (rule unsigned_less)
  then have "unat p * unat (1 :: unsigned) \<le> 4294967296" by simp
  from flat_index_exact [OF this _ k, of 0]
  have f: "flat_index p 0 k = k" by simp
  from k have p: "0 < unat p" by simp
  from m have c: "real (unat p) \<le> real m" by (simp only: of_nat_le_iff)
  have "init exact_dbl p 1 (real m) ! k ! 0
      = spec_prototype exact_dbl (unat p) (real m) k * spec_beta exact_dbl (unat p) (unat p) (real m)"
    using init_nth [OF k, of 0 1 exact_dbl "real m"]
    by (simp add: f exact_dbl_simps)
  with spec_prototype_positive [OF k c] spec_beta_positive [OF p p c]
  show ?thesis by simp
qed

lemma real_sample_single:
  "real_sample exact_dbl f64_elem [c] [x] = c * x"
  by (simp add: real_sample_def saturate_def real_accum_def f64_elem_def exact_dbl_simps)

text \<open>
  The engine \<open>RealResampler<double>(65536, 65536, 1)\<close>: partition 0 holds one positive
  coefficient (about \<open>0.00011\<close> in \<open>double\<close>), and the history is empty.
\<close>

lemma engine_65536_partition:
  "\<exists>c. 0 < c \<and> partitions (projr (RealResampler exact_dbl f64_elem 65536 65536 1)) ! 0 = [c]"
proof -
  let ?e = "projr (RealResampler exact_dbl f64_elem 65536 65536 1)"
  have "construct exact_dbl (t_zero f64_elem) 65536 65536 1 = Inr ?e"
    unfolding RealResampler_def by (rule construct_projr) simp
  from construct_partitions [OF this]
  have parts: "partitions ?e = init exact_dbl 65536 1 (real 65536)"
    by (simp add: exact_dbl_simps)
  have pos: "0 < init exact_dbl 65536 1 (real 65536) ! 0 ! 0"
    by (rule init_one_tap_positive) simp_all
  have "list_all (\<lambda>h. length h = unat (1 :: unsigned)) (init exact_dbl 65536 1 (real 65536))"
    by (rule list_all_init)
  moreover have "0 < length (init exact_dbl 65536 1 (real 65536))"
    by (simp add: length_init)
  ultimately have "length (init exact_dbl 65536 1 (real 65536) ! 0) = Suc 0"
    by (simp add: list_all_length)
  from singleton_nth [OF this] pos parts show ?thesis
    by auto
qed

lemma engine_65536_history:
  "history (projr (RealResampler exact_dbl f64_elem 65536 65536 1)) = []"
proof -
  have "construct exact_dbl (t_zero f64_elem) 65536 65536 1
      = Inr (projr (RealResampler exact_dbl f64_elem 65536 65536 1))"
    unfolding RealResampler_def by (rule construct_projr) simp
  from construct_history [OF this] show ?thesis by simp
qed

text \<open>
  \<open>65536 * 65536\<close> is \<open>2^32\<close>, which is 0 in \<open>unsigned\<close>: the path entry of index 65536 is that
  of index 0.
\<close>

lemma path_entry_65536:
  "path_entry 65536 65536 65536 = (0, 0)" "path_entry 65536 65536 0 = (0, 0)"
  by (simp_all add: path_entry_def)

text \<open>
  One call with 65536 zeros followed by 65536 ones: sample 65536 is computed from
  \<open>input[0]\<close>.
\<close>

lemma whole_65536:
  "\<exists>out. fst (RealResampler_resample exact_dbl f64_elem
       (projr (RealResampler exact_dbl f64_elem 65536 65536 1))
       (replicate 65536 0 @ replicate 65536 1) (replicate 131072 0)) = Inr out
     \<and> length out = 131072 \<and> out ! 65536 = 0"
proof -
  let ?e = "projr (RealResampler exact_dbl f64_elem 65536 65536 1)"
  let ?k = "real_sample exact_dbl f64_elem"
  let ?x = "replicate 65536 (0 :: real) @ replicate 65536 1"
  let ?o = "replicate 131072 (0 :: real)"
  have c: "constructed 65536 65536 1 ?e"
    by (rule constructed_RealResampler) simp
  have a: "accepts ?e (length ?x) (length ?o)"
    by (rule accepts_constructed [OF c]) simp_all
  have "length ?x \<le> 2147483648" and "unat (65536 :: unsigned) \<le> 2147483648"
    by simp_all
  from resample_body_succeeds [OF c a this, of ?k]
  obtain out where out: "fst (resample_body ?k ?e ?x ?o) = Inr out" ..
  from engine_65536_partition obtain c0 where c0: "partitions ?e ! 0 = [c0]" by blast
  have "65536 < length ?o" by simp
  from resample_body_output(2) [OF c out this]
  have "out ! 65536 = 0"
    by (simp add: path_entry_65536 engine_65536_history c0 real_sample_single)
  moreover from resample_body_output(1) [OF c out] have "length out = 131072" by simp
  ultimately show ?thesis
    using out by (simp add: RealResampler_resample_def)
qed

text \<open>The sample of the specification at that index is computed from \<open>input[65536]\<close>.\<close>

lemma spec_65536:
  "0 < spec_sample (real_sample exact_dbl f64_elem)
       (projr (RealResampler exact_dbl f64_elem 65536 65536 1)) 1
       (replicate 65536 0 @ replicate 65536 1) 65536"
proof -
  let ?e = "projr (RealResampler exact_dbl f64_elem 65536 65536 1)"
  have c: "constructed 65536 65536 1 ?e"
    by (rule constructed_RealResampler) simp
  then have pq: "rs_P ?e = 65536" "rs_Q ?e = 65536"
    by (simp_all add: constructed_def)
  from engine_65536_partition obtain c0 where c0: "0 < c0" "partitions ?e ! 0 = [c0]" by blast
  then show ?thesis
    by (simp add: spec_sample_def pq engine_65536_history real_sample_single)
qed

text \<open>
  Two calls, with the zeros and then with the ones: sample 0 of the second call is
  computed from the first one.
\<close>

lemma blocks_65536:
  "\<exists>out. fst (resample_blocks (RealResampler_resample exact_dbl f64_elem)
       (projr (RealResampler exact_dbl f64_elem 65536 65536 1))
       [(replicate 65536 0, replicate 65536 0), (replicate 65536 1, replicate 65536 0)]) = Inr out
     \<and> length out = 131072 \<and> 0 < out ! 65536"
proof -
  let ?e = "projr (RealResampler exact_dbl f64_elem 65536 65536 1)"
  let ?k = "real_sample exact_dbl f64_elem"
  let ?b1 = "replicate 65536 (0 :: real)"
  let ?b2 = "replicate 65536 (1 :: real)"
  have c: "constructed 65536 65536 1 ?e"
    by (rule constructed_RealResampler) simp
  have a: "accepts ?e (length ?b1) (length ?b1)"
    by (rule accepts_constructed [OF c]) simp_all
  have s: "length ?b1 \<le> 2147483648" "unat (65536 :: unsigned) \<le> 2147483648"
    by simp_all
  from resample_body_succeeds [OF c a s, of ?k]
  obtain out1 where out1: "fst (resample_body ?k ?e ?b1 ?b1) = Inr out1" ..
  obtain e1 where e1: "snd (resample_body ?k ?e ?b1 ?b1) = e1" by simp
  from out1 e1 have r1: "resample_body ?k ?e ?b1 ?b1 = (Inr out1, e1)"
    by (simp add: prod_eq_iff)
  from resample_body_keeps [OF c, of ?k ?b1 ?b1] e1
  have c1: "constructed 65536 65536 1 e1" by simp
  from resample_body_success_state [OF out1] e1
  have h1: "history e1 = []" and p1: "partitions e1 = partitions ?e"
    by (simp_all add: engine_65536_history)
  have a1: "accepts e1 (length ?b2) (length ?b1)"
    by (rule accepts_constructed [OF c1]) simp_all
  have s2: "length ?b2 \<le> 2147483648" by simp
  from resample_body_succeeds [OF c1 a1 s2 s(2), of ?k]
  obtain out2 where out2: "fst (resample_body ?k e1 ?b2 ?b1) = Inr out2" ..
  obtain e2 where e2: "snd (resample_body ?k e1 ?b2 ?b1) = e2" by simp
  from out2 e2 have r2: "resample_body ?k e1 ?b2 ?b1 = (Inr out2, e2)"
    by (simp add: prod_eq_iff)
  from engine_65536_partition obtain c0 where c0: "0 < c0" "partitions ?e ! 0 = [c0]" by blast
  have "0 < length ?b1" by simp
  from resample_body_output(2) [OF c1 out2 this]
  have o2: "out2 ! 0 = c0"
    by (simp add: path_entry_65536 h1 p1 c0 real_sample_single)
  from resample_body_output(1) [OF c out1] have l1: "length out1 = 65536" by simp
  from resample_body_output(1) [OF c1 out2] have l2: "length out2 = 65536" by simp
  have "fst (resample_blocks (RealResampler_resample exact_dbl f64_elem) ?e
      [(?b1, ?b1), (?b2, ?b1)]) = Inr (out1 @ out2)"
    by (simp add: RealResampler_resample_def r1 r2)
  moreover have "(out1 @ out2) ! 65536 = out2 ! 0"
    using l1 by (simp add: nth_append)
  ultimately show ?thesis
    using o2 c0(1) l1 l2 by simp
qed

text \<open>
  C1. The real engine constructed with \<open>P = Q = 65536\<close> and one tap is called once with
  131072 input samples, 65536 zeros followed by 65536 ones, and 131072 output samples.
  The call succeeds. At output index \<open>i = 65536\<close> the product \<open>Q * i = 2^32\<close> has wrapped to
  0 in the path table, and \<open>output[i]\<close> is 0, computed from the window at offset 0. The
  dot product of \<open>partitions[(Q*i) mod P]\<close> with the window at offset \<open>floor(Q*i/P) = 65536\<close>
  is the coefficient of partition 0, which is positive.
\<close>

theorem C1_output_from_wrapped_entry:
  "\<not> isl (fst (RealResampler_resample exact_dbl f64_elem
        (projr (RealResampler exact_dbl f64_elem 65536 65536 1))
        (replicate 65536 0 @ replicate 65536 1) (replicate 131072 0)))
   \<and> projr (fst (RealResampler_resample exact_dbl f64_elem
        (projr (RealResampler exact_dbl f64_elem 65536 65536 1))
        (replicate 65536 0 @ replicate 65536 1) (replicate 131072 0))) ! 65536 = 0
   \<and> 0 < spec_sample (real_sample exact_dbl f64_elem)
        (projr (RealResampler exact_dbl f64_elem 65536 65536 1)) 1
        (replicate 65536 0 @ replicate 65536 1) 65536"
proof -
  from whole_65536 obtain out
    where "fst (RealResampler_resample exact_dbl f64_elem
        (projr (RealResampler exact_dbl f64_elem 65536 65536 1))
        (replicate 65536 0 @ replicate 65536 1) (replicate 131072 0)) = Inr out"
      and "out ! 65536 = 0"
    by blast
  with spec_65536 show ?thesis by simp
qed

text \<open>
  C7. The same engine takes the same sequence in one call, or in two blocks of 65536
  samples with 65536 output samples each; the size check accepts both blocks. Both
  ways succeed. Output sample 65536 is 0 after the one call, where \<open>Q * i\<close> has wrapped,
  and positive after the two calls, where it is sample 0 of the second call.
\<close>

theorem C7_one_call_differs_from_blocks:
  "accepts_all (projr (RealResampler exact_dbl f64_elem 65536 65536 1))
     [(replicate 65536 (0 :: real), replicate 65536 (0 :: real)),
      (replicate 65536 1, replicate 65536 0)]
   \<and> \<not> isl (fst (RealResampler_resample exact_dbl f64_elem
        (projr (RealResampler exact_dbl f64_elem 65536 65536 1))
        (replicate 65536 0 @ replicate 65536 1) (replicate 131072 0)))
   \<and> \<not> isl (fst (resample_blocks (RealResampler_resample exact_dbl f64_elem)
        (projr (RealResampler exact_dbl f64_elem 65536 65536 1))
        [(replicate 65536 0, replicate 65536 0), (replicate 65536 1, replicate 65536 0)]))
   \<and> projr (fst (RealResampler_resample exact_dbl f64_elem
        (projr (RealResampler exact_dbl f64_elem 65536 65536 1))
        (replicate 65536 0 @ replicate 65536 1) (replicate 131072 0))) ! 65536 = 0
   \<and> 0 < projr (fst (resample_blocks (RealResampler_resample exact_dbl f64_elem)
        (projr (RealResampler exact_dbl f64_elem 65536 65536 1))
        [(replicate 65536 0, replicate 65536 0), (replicate 65536 1, replicate 65536 0)]))
       ! 65536"
proof -
  let ?e = "projr (RealResampler exact_dbl f64_elem 65536 65536 1)"
  have c: "constructed 65536 65536 1 ?e"
    by (rule constructed_RealResampler) simp
  have "accepts ?e 65536 65536"
    by (rule accepts_constructed [OF c]) simp_all
  then have a: "accepts_all ?e
     [(replicate 65536 (0 :: real), replicate 65536 (0 :: real)),
      (replicate 65536 1, replicate 65536 0)]"
    by (simp add: accepts_all_def)
  from whole_65536 obtain out
    where w: "fst (RealResampler_resample exact_dbl f64_elem ?e
        (replicate 65536 0 @ replicate 65536 1) (replicate 131072 0)) = Inr out"
      "out ! 65536 = 0"
    by blast
  from blocks_65536 obtain outs
    where b: "fst (resample_blocks (RealResampler_resample exact_dbl f64_elem) ?e
        [(replicate 65536 0, replicate 65536 0), (replicate 65536 1, replicate 65536 0)])
        = Inr outs"
      "0 < outs ! 65536"
    by blast
  from a w b show ?thesis by simp
qed

end
